theory Spec2Isabelle
  imports Complex_Main "HOL-Library.Monad_Syntax"
begin

section \<open>DissMatch: matching students to supervisors\<close>

text \<open>
  A shallow embedding of \<^verbatim>\<open>DissMatch.py\<close>. The script reads two sheets of a
  workbook (supervisors, students), builds a 0/1 linear program with PuLP, has it solved
  and reports on the solution. The workbook is the input of the model (\<open>workbook\<close>), the
  solver is a black box whose answer is a second input (the \<open>varValue\<close> of every
  variable), and every module-level name of the script is a function of these.
\<close>

subsection \<open>Cells of the workbook\<close>

text \<open>
  A cell read by pandas is a string, a number or missing (\<^verbatim>\<open>NaN\<close>).
  \<^verbatim>\<open>pd.notnull\<close> is false exactly on the missing cell.
\<close>

datatype cell = Str string | Num int | Null

definition notnull :: "cell \<Rightarrow> bool" where
  "notnull c = (c \<noteq> Null)"

subsection \<open>The area normalizer\<close>

text \<open>
  \<^verbatim>\<open>re.sub(r'[\s\d\.,]+', '', text).lower()\<close> on a string, anything else returned
  as it is. Substituting every maximal run of the character class by the empty string
  deletes exactly the characters of the class. The model covers ASCII text: \<open>\s\<close> is
  the characters 9 to 13, 28 to 32, \<open>\d\<close> the digits 48 to 57, and \<open>lower\<close> moves
  \<open>A\<close> to \<open>Z\<close> by 32; a byte from 128 on is kept as it is.
\<close>

definition in_class :: "char \<Rightarrow> bool" where
  "in_class c =
     (let n = (of_char c :: nat)
      in (9 \<le> n \<and> n \<le> 13) \<or> (28 \<le> n \<and> n \<le> 32) \<or> (48 \<le> n \<and> n \<le> 57)
         \<or> c = CHR ''.'' \<or> c = CHR '','')"

definition lower_char :: "char \<Rightarrow> char" where
  "lower_char c =
     (let n = (of_char c :: nat)
      in if 65 \<le> n \<and> n \<le> 90 then char_of (n + 32) else c)"

definition re_sub_class :: "string \<Rightarrow> string" where
  "re_sub_class text = filter (\<lambda>c. \<not> in_class c) text"

definition lower :: "string \<Rightarrow> string" where
  "lower text = map lower_char text"

fun normalize_area :: "cell \<Rightarrow> cell" where
  "normalize_area (Str text) = Str (lower (re_sub_class text))"
| "normalize_area c = c"


subsection \<open>The two sheets\<close>

text \<open>
  A row of the supervisors sheet has the columns \<open>name\<close>, \<open>workload\<close> and
  \<open>area1\<close> to \<open>area5\<close>. A row of the students sheet has the column \<open>name\<close> and a
  cell under every column of the sheet; \<open>student_columns\<close> are the names of the columns
  of the students sheet, in the sheet's order.
\<close>

record supervisor_row =
  sup_name :: string
  sup_workload :: int
  area1 :: cell
  area2 :: cell
  area3 :: cell
  area4 :: cell
  area5 :: cell

record student_row =
  stu_name :: string
  stu_cell :: "string \<Rightarrow> cell"

record workbook =
  supervisors :: "supervisor_row list"
  student_columns :: "string list"
  students :: "student_row list"

text \<open>
  A Python dict built from a sequence of (key, value) pairs: a later pair overwrites an
  earlier one with the same key. Looking up a key that is absent raises \<open>KeyError\<close>,
  which is the value \<open>None\<close> of every function below that reads a dict.
\<close>

definition dict_of :: "('k \<times> 'v) list \<Rightarrow> ('k \<rightharpoonup> 'v)" where
  "dict_of kvs = map_of (rev kvs)"

subsection \<open>Step 2: preparing the data\<close>

definition supervisor_names :: "workbook \<Rightarrow> string list" where
  "supervisor_names inst = map sup_name (supervisors inst)"

definition student_names :: "workbook \<Rightarrow> string list" where
  "student_names inst = map stu_name (students inst)"

definition workload :: "workbook \<Rightarrow> (string \<rightharpoonup> int)" where
  "workload inst = dict_of (zip (map sup_name (supervisors inst)) (map sup_workload (supervisors inst)))"

definition supervisor_area_cols :: "(supervisor_row \<Rightarrow> cell) list" where
  "supervisor_area_cols = [area1, area2, area3, area4, area5]"

definition raw_areas :: "workbook \<Rightarrow> cell list" where
  "raw_areas inst = concat (map (\<lambda>row. [area1 row, area2 row, area3 row, area4 row, area5 row]) (supervisors inst))"

text \<open>
  \<^verbatim>\<open>list(set(...))\<close>: the distinct elements, in an order Python does not specify.
  The model keeps the first occurrence of each; no property below depends on the order.
\<close>

definition areas :: "workbook \<Rightarrow> cell list" where
  "areas inst = remdups [normalize_area a. a \<leftarrow> raw_areas inst, notnull a]"

definition supervisor_preferences :: "workbook \<Rightarrow> (string \<rightharpoonup> cell list)" where
  "supervisor_preferences inst =
     dict_of (map (\<lambda>row. (sup_name row, [normalize_area (col row). col \<leftarrow> supervisor_area_cols, notnull (col row)]))
                  (supervisors inst))"

definition startswith :: "string \<Rightarrow> string \<Rightarrow> bool" where
  "startswith s p = (take (length p) s = p)"

definition student_area_cols :: "workbook \<Rightarrow> string list" where
  "student_area_cols inst = [col. col \<leftarrow> student_columns inst, startswith col ''proposal_'']"

definition student_preferences :: "workbook \<Rightarrow> (string \<rightharpoonup> cell list)" where
  "student_preferences inst =
     dict_of (map (\<lambda>row. (stu_name row, [normalize_area (stu_cell row col). col \<leftarrow> student_area_cols inst, notnull (stu_cell row col)]))
                  (students inst))"

subsection \<open>Step 4: the decision variables\<close>

text \<open>
  The dict \<open>x\<close> holds one binary variable under every key (student, supervisor, area).
  A variable is identified with its key; \<open>x_keys\<close> are the keys in the order of the
  three nested loops, which every later loop of the script repeats.
\<close>

type_synonym key = "string \<times> string \<times> cell"

definition x_keys :: "workbook \<Rightarrow> key list" where
  "x_keys inst =
     [(student, supervisor, area). student \<leftarrow> student_names inst, supervisor \<leftarrow> supervisor_names inst, area \<leftarrow> areas inst]"

subsection \<open>Step 5: satisfaction scores\<close>

definition student_points :: "workbook \<Rightarrow> string \<Rightarrow> cell \<Rightarrow> int option" where
  "student_points inst student area =
     (case student_preferences inst student of
        None \<Rightarrow> None
      | Some prefs \<Rightarrow>
          Some (if length prefs > 0 \<and> area = prefs ! 0 then 10
                else if length prefs > 1 \<and> area = prefs ! 1 then 7
                else if length prefs > 2 \<and> area = prefs ! 2 then 5
                else - 10))"

definition supervisor_points :: "workbook \<Rightarrow> string \<Rightarrow> cell \<Rightarrow> int option" where
  "supervisor_points inst supervisor area =
     (case supervisor_preferences inst supervisor of
        None \<Rightarrow> None
      | Some prefs \<Rightarrow>
          Some (if length prefs > 0 \<and> area = prefs ! 0 then 5
                else if length prefs > 1 \<and> area = prefs ! 1 then 4
                else if length prefs > 2 \<and> area = prefs ! 2 then 3
                else if length prefs > 3 \<and> area = prefs ! 3 then 2
                else if length prefs > 4 \<and> area = prefs ! 4 then 1
                else - 10))"

text \<open>
  The dict \<open>satisfaction\<close>, filled by the three nested loops with the sum of the two
  scores (\<open>edge_weight\<close>); the whole run stops (\<open>None\<close>) if one of the two functions
  raises.
\<close>

definition edge_weight :: "workbook \<Rightarrow> key \<Rightarrow> int option" where
  "edge_weight inst k =
     (case k of (student, supervisor, area) \<Rightarrow>
        do {
          p \<leftarrow> student_points inst student area;
          q \<leftarrow> supervisor_points inst supervisor area;
          Some (p + q)
        })"

definition satisfaction_step :: "workbook \<Rightarrow> key \<Rightarrow> (key \<rightharpoonup> int) option \<Rightarrow> (key \<rightharpoonup> int) option" where
  "satisfaction_step inst k acc =
     do {
       d \<leftarrow> acc;
       w \<leftarrow> edge_weight inst k;
       Some (d(k \<mapsto> w))
     }"

definition satisfaction :: "workbook \<Rightarrow> (key \<rightharpoonup> int) option" where
  "satisfaction inst = fold (satisfaction_step inst) (x_keys inst) (Some Map.empty)"

text \<open>The lookup \<^verbatim>\<open>satisfaction[(student, supervisor, area)]\<close>.\<close>

definition satisfaction_at :: "workbook \<Rightarrow> key \<Rightarrow> int option" where
  "satisfaction_at inst k = (case satisfaction inst of None \<Rightarrow> None | Some d \<Rightarrow> d k)"

subsection \<open>Steps 3 and 6 to 9: the linear program\<close>

text \<open>
  An \<open>lpSum\<close> of variables is the list of its summands, a variable that is added twice
  counting twice. A constraint compares such a sum with an integer. The objective is a
  list of (coefficient, variable) products.
\<close>

datatype sense = LE | EQ

record constraint =
  c_vars :: "key list"
  c_sense :: sense
  c_rhs :: int

record lp_problem =
  variables :: "key list"
  objective :: "(int \<times> key) list"
  constraints :: "constraint list"

text \<open>Reading a dict at every key of a list; \<open>None\<close> as soon as one key is absent.\<close>

fun lookup_all :: "('k \<rightharpoonup> 'v) \<Rightarrow> 'k list \<Rightarrow> ('k \<times> 'v) list option" where
  "lookup_all d [] = Some []"
| "lookup_all d (k # ks) =
     (case d k of
        None \<Rightarrow> None
      | Some v \<Rightarrow> (case lookup_all d ks of None \<Rightarrow> None | Some kvs \<Rightarrow> Some ((k, v) # kvs)))"

definition objective_terms :: "workbook \<Rightarrow> (key \<rightharpoonup> int) \<Rightarrow> (int \<times> key) list option" where
  "objective_terms inst d = map_option (map (\<lambda>(k, w). (w, k))) (lookup_all d (x_keys inst))"

definition student_constraints :: "workbook \<Rightarrow> constraint list" where
  "student_constraints inst =
     map (\<lambda>student.
            \<lparr>c_vars = [(student, supervisor, area). supervisor \<leftarrow> supervisor_names inst, area \<leftarrow> areas inst],
             c_sense = LE, c_rhs = 1\<rparr>)
         (student_names inst)"

definition supervisor_constraints :: "workbook \<Rightarrow> constraint list option" where
  "supervisor_constraints inst =
     map_option
       (map (\<lambda>(supervisor, w).
               \<lparr>c_vars = [(student, supervisor, area). student \<leftarrow> student_names inst, area \<leftarrow> areas inst],
                c_sense = LE, c_rhs = w\<rparr>))
       (lookup_all (workload inst) (supervisor_names inst))"

definition eligibility_constraints :: "workbook \<Rightarrow> (key \<rightharpoonup> int) \<Rightarrow> constraint list option" where
  "eligibility_constraints inst d =
     map_option
       (\<lambda>kws. [\<lparr>c_vars = [k], c_sense = EQ, c_rhs = 0\<rparr>. (k, w) \<leftarrow> kws, w = - 20])
       (lookup_all d (x_keys inst))"

definition prob :: "workbook \<Rightarrow> lp_problem option" where
  "prob inst =
     do {
       d \<leftarrow> satisfaction inst;
       obj \<leftarrow> objective_terms inst d;
       sup \<leftarrow> supervisor_constraints inst;
       elig \<leftarrow> eligibility_constraints inst d;
       Some \<lparr>variables = x_keys inst, objective = obj,
             constraints = student_constraints inst @ sup @ elig\<rparr>
     }"

subsection \<open>Step 10: what a solved program means\<close>

text \<open>
  The solver is outside the script. An assignment gives every variable a value; it is
  feasible when every variable is 0 or 1 (\<open>LpBinary\<close>) and every constraint holds, and
  it is an optimum when no feasible assignment has a larger objective.
\<close>

type_synonym assignment = "key \<Rightarrow> rat"

definition lp_sum :: "assignment \<Rightarrow> key list \<Rightarrow> rat" where
  "lp_sum u ks = sum_list (map u ks)"

definition holds :: "assignment \<Rightarrow> constraint \<Rightarrow> bool" where
  "holds u c =
     (case c_sense c of
        LE \<Rightarrow> lp_sum u (c_vars c) \<le> of_int (c_rhs c)
      | EQ \<Rightarrow> lp_sum u (c_vars c) = of_int (c_rhs c))"

definition is_binary :: "assignment \<Rightarrow> key \<Rightarrow> bool" where
  "is_binary u k = (u k = 0 \<or> u k = 1)"

definition feasible :: "lp_problem \<Rightarrow> assignment \<Rightarrow> bool" where
  "feasible p u = (list_all (is_binary u) (variables p) \<and> list_all (holds u) (constraints p))"

definition objective_value :: "lp_problem \<Rightarrow> assignment \<Rightarrow> rat" where
  "objective_value p u = sum_list (map (\<lambda>(w, k). of_int w * u k) (objective p))"

definition optimal :: "lp_problem \<Rightarrow> assignment \<Rightarrow> bool" where
  "optimal p u = (feasible p u \<and> (\<forall>u'. feasible p u' \<longrightarrow> objective_value p u' \<le> objective_value p u))"

text \<open>A solved run: the program is built and the solver answers with one of its optima.\<close>

definition solved :: "workbook \<Rightarrow> assignment \<Rightarrow> bool" where
  "solved inst u = (case prob inst of None \<Rightarrow> False | Some p \<Rightarrow> optimal p u)"

subsection \<open>Steps 12 to 14: reading the solution back\<close>

text \<open>
  \<open>varValue\<close> is what the solver left in each variable: \<open>None\<close> or a number. The test
  \<^verbatim>\<open>val is not None and val > 0.5\<close> selects a key.
\<close>

type_synonym var_values = "key \<Rightarrow> rat option"

definition selected :: "var_values \<Rightarrow> key \<Rightarrow> bool" where
  "selected varValue k = (case varValue k of None \<Rightarrow> False | Some val \<Rightarrow> val > 1 / 2)"

text \<open>
  After a solved run every variable holds the value the solver gave it, and the
  objective the solver reports is the objective at these values.
\<close>

definition var_values_of :: "assignment \<Rightarrow> var_values" where
  "var_values_of u = (\<lambda>k. Some (u k))"

definition reported_objective :: "workbook \<Rightarrow> assignment \<Rightarrow> rat option" where
  "reported_objective inst u = (case prob inst of None \<Rightarrow> None | Some p \<Rightarrow> Some (objective_value p u))"

text \<open>
  Steps 12 and 13: one printed line, and one row of the \<open>matches\<close> sheet, per selected
  key, in the order of the loops.
\<close>

definition assignments :: "workbook \<Rightarrow> var_values \<Rightarrow> key list" where
  "assignments inst varValue = filter (selected varValue) (x_keys inst)"

text \<open>Step 14: the total satisfaction, the load of each supervisor, the unmatched students.\<close>

definition total_satisfaction :: "workbook \<Rightarrow> (key \<rightharpoonup> int) \<Rightarrow> var_values \<Rightarrow> int option" where
  "total_satisfaction inst d varValue =
     map_option (\<lambda>kws. sum_list (map snd kws)) (lookup_all d (filter (selected varValue) (x_keys inst)))"

definition count :: "workbook \<Rightarrow> var_values \<Rightarrow> string \<Rightarrow> nat" where
  "count inst varValue supervisor =
     length [(student, supervisor, area). student \<leftarrow> student_names inst, area \<leftarrow> areas inst,
             selected varValue (student, supervisor, area)]"

definition workload_check :: "workbook \<Rightarrow> var_values \<Rightarrow> (string \<times> nat \<times> int) list option" where
  "workload_check inst varValue =
     map_option (map (\<lambda>(supervisor, w). (supervisor, count inst varValue supervisor, w)))
       (lookup_all (workload inst) (supervisor_names inst))"

definition assigned :: "workbook \<Rightarrow> var_values \<Rightarrow> string \<Rightarrow> bool" where
  "assigned inst varValue student =
     list_ex (selected varValue)
       [(student, supervisor, area). supervisor \<leftarrow> supervisor_names inst, area \<leftarrow> areas inst]"

definition unmatched :: "workbook \<Rightarrow> var_values \<Rightarrow> string list" where
  "unmatched inst varValue = [student. student \<leftarrow> student_names inst, \<not> assigned inst varValue student]"

text \<open>
  What section 14 prints, as one value: the printed total, the printed line of each
  supervisor (name, count, limit) and the printed list of unmatched students. The other
  lines of the section (the rank histograms, the remaining capacities) are computed by
  the same loops and tests. The section has no comparison with the solver's objective,
  no assertion and no \<^verbatim>\<open>raise\<close>; \<open>None\<close> can only come from a dict lookup.
\<close>

record report =
  r_total :: int
  r_workload :: "(string \<times> nat \<times> int) list"
  r_unmatched :: "string list"

definition test_solution :: "workbook \<Rightarrow> var_values \<Rightarrow> report option" where
  "test_solution inst varValue =
     do {
       d \<leftarrow> satisfaction inst;
       total \<leftarrow> total_satisfaction inst d varValue;
       loads \<leftarrow> workload_check inst varValue;
       Some \<lparr>r_total = total, r_workload = loads, r_unmatched = unmatched inst varValue\<rparr>
     }"

subsection \<open>The scoring rule in the words of the specification\<close>

text \<open>
  The specification speaks of the rank of an area in a preference sequence and gives a
  utility to each rank. \<open>rank_of\<close> is the position of the first occurrence, counted from
  0; the two utility tables are those of the specification.
\<close>

fun rank_of :: "'a \<Rightarrow> 'a list \<Rightarrow> nat option" where
  "rank_of a [] = None"
| "rank_of a (b # bs) = (if a = b then Some 0 else map_option Suc (rank_of a bs))"

definition student_utility :: "nat option \<Rightarrow> int" where
  "student_utility r =
     (if r = Some 0 then 10 else if r = Some 1 then 7 else if r = Some 2 then 5 else - 10)"

definition supervisor_utility :: "nat option \<Rightarrow> int" where
  "supervisor_utility r =
     (if r = Some 0 then 5 else if r = Some 1 then 4 else if r = Some 2 then 3
      else if r = Some 3 then 2 else if r = Some 4 then 1 else - 10)"

subsection \<open>Example workbooks\<close>

text \<open>A row of the students sheet given by its cells; a cell that is not given is missing.\<close>

definition cells :: "(string \<times> cell) list \<Rightarrow> string \<Rightarrow> cell" where
  "cells kvs col = (case map_of kvs col of None \<Rightarrow> Null | Some c \<Rightarrow> c)"

text \<open>
  The first scenario of the specification: one student with the areas a, b and one
  supervisor with the areas b, c and capacity 1, the two sheets numbering their areas
  differently.
\<close>

definition wb_scenario :: workbook where
  "wb_scenario =
     \<lparr>supervisors =
        [\<lparr>sup_name = ''P'', sup_workload = 1, area1 = Str ''1. b'', area2 = Str ''2. c'',
          area3 = Null, area4 = Null, area5 = Null\<rparr>],
      student_columns = [''name'', ''proposal_1'', ''proposal_2''],
      students =
        [\<lparr>stu_name = ''S'',
          stu_cell = cells [(''name'', Str ''S''), (''proposal_1'', Str ''a 1''), (''proposal_2'', Str ''b 2'')]\<rparr>]\<rparr>"

text \<open>
  One student whose first choice is tax; the supervisor who offers tax has capacity 0,
  the other supervisor offers law only.
\<close>

definition wb_tie :: workbook where
  "wb_tie =
     \<lparr>supervisors =
        [\<lparr>sup_name = ''P1'', sup_workload = 1, area1 = Str ''law'', area2 = Null,
          area3 = Null, area4 = Null, area5 = Null\<rparr>,
         \<lparr>sup_name = ''P2'', sup_workload = 0, area1 = Str ''tax'', area2 = Null,
          area3 = Null, area4 = Null, area5 = Null\<rparr>],
      student_columns = [''name'', ''proposal_1''],
      students =
        [\<lparr>stu_name = ''S'', stu_cell = cells [(''name'', Str ''S''), (''proposal_1'', Str ''tax'')]\<rparr>]\<rparr>"

text \<open>One student who names art, one supervisor who names law.\<close>

definition wb_alone :: workbook where
  "wb_alone =
     \<lparr>supervisors =
        [\<lparr>sup_name = ''P'', sup_workload = 1, area1 = Str ''law'', area2 = Null,
          area3 = Null, area4 = Null, area5 = Null\<rparr>],
      student_columns = [''name'', ''proposal_1''],
      students =
        [\<lparr>stu_name = ''S'', stu_cell = cells [(''name'', Str ''S''), (''proposal_1'', Str ''art'')]\<rparr>]\<rparr>"

text \<open>A students sheet with four proposal columns and a supervisor with five areas.\<close>

definition wb_four :: workbook where
  "wb_four =
     \<lparr>supervisors =
        [\<lparr>sup_name = ''P'', sup_workload = 1, area1 = Str ''tax'', area2 = Str ''law'',
          area3 = Str ''art'', area4 = Str ''war'', area5 = Str ''sea''\<rparr>],
      student_columns = [''name'', ''proposal_1'', ''proposal_2'', ''proposal_3'', ''proposal_4''],
      students =
        [\<lparr>stu_name = ''S'',
          stu_cell = cells [(''name'', Str ''S''), (''proposal_1'', Str ''oil''), (''proposal_2'', Str ''gas''),
                            (''proposal_3'', Str ''sea''), (''proposal_4'', Str ''tax'')]\<rparr>]\<rparr>"

text \<open>Solver answers for the examples.\<close>

definition u_scenario :: assignment where
  "u_scenario k = (if k = (''S'', ''P'', Str ''b'') then 1 else 0)"

definition u_tie :: assignment where
  "u_tie k = (if k = (''S'', ''P1'', Str ''tax'') then 1 else 0)"

definition u_none :: assignment where
  "u_none k = 0"

text \<open>An answer that breaks the model: a fractional value on a supervisor with capacity 0.\<close>

definition u_broken :: assignment where
  "u_broken k = (if k = (''S'', ''P2'', Str ''tax'') then 3 / 4 else 0)"

section \<open>Properties\<close>

subsection \<open>The normalizer\<close>









subsection \<open>The dicts are defined where the script reads them\<close>

lemma zip_map_same: "zip (map f xs) (map g xs) = map (\<lambda>x. (f x, g x)) xs"
  by (induction xs) auto

lemma dict_of_map_None: "dict_of (map (\<lambda>x. (f x, g x)) xs) k = None \<longleftrightarrow> k \<notin> f ` set xs"
  by (simp add: dict_of_def map_of_eq_None_iff image_image rev_map[symmetric] del: rev_map)

lemma dict_of_map_Some:
  "dict_of (map (\<lambda>x. (f x, g x)) xs) k = Some v \<Longrightarrow> \<exists>x \<in> set xs. f x = k \<and> g x = v"
  unfolding dict_of_def by (auto dest!: map_of_SomeD)

lemma student_preferences_defined:
  "student \<in> set (student_names inst) \<Longrightarrow> \<exists>prefs. student_preferences inst student = Some prefs"
  unfolding student_preferences_def student_names_def
  using dict_of_map_None [of stu_name _ "students inst" student] by fastforce

lemma supervisor_preferences_defined:
  "supervisor \<in> set (supervisor_names inst) \<Longrightarrow> \<exists>prefs. supervisor_preferences inst supervisor = Some prefs"
  unfolding supervisor_preferences_def supervisor_names_def
  using dict_of_map_None [of sup_name _ "supervisors inst" supervisor] by fastforce

lemma workload_defined:
  "supervisor \<in> set (supervisor_names inst) \<Longrightarrow> \<exists>w. workload inst supervisor = Some w"
  unfolding workload_def supervisor_names_def zip_map_same
  using dict_of_map_None [of sup_name sup_workload "supervisors inst" supervisor] by fastforce

lemma x_keys_iff:
  "(student, supervisor, area) \<in> set (x_keys inst) \<longleftrightarrow>
     student \<in> set (student_names inst) \<and> supervisor \<in> set (supervisor_names inst) \<and> area \<in> set (areas inst)"
  by (auto simp: x_keys_def)

lemma edge_weight_defined:
  assumes "k \<in> set (x_keys inst)"
  shows "\<exists>w. edge_weight inst k = Some w"
proof -
  obtain student supervisor area where k: "k = (student, supervisor, area)"
    by (cases k) auto
  from assms k have "student \<in> set (student_names inst)" "supervisor \<in> set (supervisor_names inst)"
    by (simp_all add: x_keys_iff)
  then obtain sp pp where "student_preferences inst student = Some sp" "supervisor_preferences inst supervisor = Some pp"
    using student_preferences_defined supervisor_preferences_defined by blast
  then show ?thesis
    by (simp add: k edge_weight_def student_points_def supervisor_points_def)
qed

lemma fold_satisfaction_step:
  "(\<And>k. k \<in> set ks \<Longrightarrow> \<exists>w. edge_weight inst k = Some w) \<Longrightarrow>
   fold (satisfaction_step inst) ks (Some d0) =
     Some (\<lambda>k. if k \<in> set ks then edge_weight inst k else d0 k)"
proof (induction ks arbitrary: d0)
  case Nil
  then show ?case by simp
next
  case (Cons k ks)
  have "\<exists>w. edge_weight inst k = Some w"
    by (rule Cons.prems) simp
  then obtain w where w: "edge_weight inst k = Some w" ..
  have "fold (satisfaction_step inst) (k # ks) (Some d0) = fold (satisfaction_step inst) ks (Some (d0(k \<mapsto> w)))"
    by (simp add: satisfaction_step_def w)
  also have "\<dots> = Some (\<lambda>k'. if k' \<in> set ks then edge_weight inst k' else (d0(k \<mapsto> w)) k')"
    using Cons.prems by (intro Cons.IH) auto
  also have "(\<lambda>k'. if k' \<in> set ks then edge_weight inst k' else (d0(k \<mapsto> w)) k')
           = (\<lambda>k'. if k' \<in> set (k # ks) then edge_weight inst k' else d0 k')"
    by (auto simp: w)
  finally show ?case .
qed

lemma satisfaction_eq:
  "satisfaction inst = Some (\<lambda>k. if k \<in> set (x_keys inst) then edge_weight inst k else None)"
  unfolding satisfaction_def by (rule fold_satisfaction_step) (rule edge_weight_defined)

lemma lookup_all_Some:
  "(\<And>k. k \<in> set ks \<Longrightarrow> d k = Some (f k)) \<Longrightarrow> lookup_all d ks = Some (map (\<lambda>k. (k, f k)) ks)"
  by (induction ks) auto

subsection \<open>The scores and the rank of an area\<close>

lemma rank_of_None_iff: "rank_of a xs = None \<longleftrightarrow> a \<notin> set xs"
  by (induction xs) auto

lemma rank_of_Some:
  "rank_of a xs = Some i \<Longrightarrow> i < length xs \<and> xs ! i = a \<and> a \<notin> set (take i xs)"
proof (induction xs arbitrary: i)
  case Nil
  then show ?case by simp
next
  case (Cons b bs)
  show ?case
  proof (cases "a = b")
    case True
    with Cons.prems show ?thesis by simp
  next
    case False
    with Cons.prems obtain j where j: "rank_of a bs = Some j" "i = Suc j"
      by auto
    from Cons.IH [OF j(1)] False j(2) show ?thesis by simp
  qed
qed

lemma rank_of_take: "a \<in> set (take n xs) \<longleftrightarrow> (\<exists>i < n. rank_of a xs = Some i)"
proof (induction xs arbitrary: n)
  case Nil
  then show ?case by simp
next
  case (Cons b bs)
  show ?case
  proof (cases n)
    case 0
    then show ?thesis by simp
  next
    case (Suc m)
    show ?thesis
    proof (cases "a = b")
      case True
      then show ?thesis by (simp add: Suc)
    next
      case False
      have "(\<exists>i<Suc m. map_option Suc (rank_of a bs) = Some i) \<longleftrightarrow> (\<exists>j<m. rank_of a bs = Some j)"
        by (cases "rank_of a bs") auto
      with False Cons.IH [of m] show ?thesis by (simp add: Suc)
    qed
  qed
qed

lemma student_chain:
  "(if length prefs > 0 \<and> area = prefs ! 0 then 10
    else if length prefs > 1 \<and> area = prefs ! 1 then 7
    else if length prefs > 2 \<and> area = prefs ! 2 then 5
    else - 10) = student_utility (rank_of area prefs)"
proof (cases prefs)
  case Nil
  then show ?thesis by (simp add: student_utility_def)
next
  case p0: (Cons a0 r0)
  show ?thesis
  proof (cases r0)
    case Nil
    with p0 show ?thesis by (simp add: student_utility_def)
  next
    case p1: (Cons a1 r1)
    show ?thesis
    proof (cases r1)
      case Nil
      with p0 p1 show ?thesis by (simp add: student_utility_def)
    next
      case p2: (Cons a2 r2)
      with p0 p1 show ?thesis
        by (cases "rank_of area r2") (simp_all add: student_utility_def)
    qed
  qed
qed


lemma supervisor_chain:
  "(if length prefs > 0 \<and> area = prefs ! 0 then 5
    else if length prefs > 1 \<and> area = prefs ! 1 then 4
    else if length prefs > 2 \<and> area = prefs ! 2 then 3
    else if length prefs > 3 \<and> area = prefs ! 3 then 2
    else if length prefs > 4 \<and> area = prefs ! 4 then 1
    else - 10) = supervisor_utility (rank_of area prefs)"
proof (cases prefs)
  case Nil
  then show ?thesis by (simp add: supervisor_utility_def)
next
  case p0: (Cons a0 r0)
  show ?thesis
  proof (cases r0)
    case Nil
    with p0 show ?thesis by (simp add: supervisor_utility_def)
  next
    case p1: (Cons a1 r1)
    show ?thesis
    proof (cases r1)
      case Nil
      with p0 p1 show ?thesis by (simp add: supervisor_utility_def)
    next
      case p2: (Cons a2 r2)
      show ?thesis
      proof (cases r2)
        case Nil
        with p0 p1 p2 show ?thesis by (simp add: supervisor_utility_def)
      next
        case p3: (Cons a3 r3)
        show ?thesis
        proof (cases r3)
          case Nil
          with p0 p1 p2 p3 show ?thesis by (simp add: supervisor_utility_def)
        next
          case p4: (Cons a4 r4)
          with p0 p1 p2 p3 show ?thesis
            by (cases "rank_of area r4") (simp_all add: supervisor_utility_def)
        qed
      qed
    qed
  qed
qed

lemma student_points_eq:
  "student_preferences inst student = Some sp \<Longrightarrow>
   student_points inst student area = Some (student_utility (rank_of area sp))"
  by (simp only: student_points_def student_chain option.case)

lemma supervisor_points_eq:
  "supervisor_preferences inst supervisor = Some pp \<Longrightarrow>
   supervisor_points inst supervisor area = Some (supervisor_utility (rank_of area pp))"
  by (simp only: supervisor_points_def supervisor_chain option.case)

lemma edge_weight_eq:
  "student_preferences inst student = Some sp \<Longrightarrow> supervisor_preferences inst supervisor = Some pp \<Longrightarrow>
   edge_weight inst (student, supervisor, area) =
     Some (student_utility (rank_of area sp) + supervisor_utility (rank_of area pp))"
  by (simp add: edge_weight_def student_points_eq supervisor_points_eq)

lemma satisfaction_at_eq:
  "satisfaction_at inst k = (if k \<in> set (x_keys inst) then edge_weight inst k else None)"
  by (simp add: satisfaction_at_def satisfaction_eq)

text \<open>
  C3. For a student and a supervisor of the sheets and any area: the student's score is
  10, 7 or 5 at rank 0, 1 or 2 of the student's sequence and -10 otherwise; the
  supervisor's score is 5, 4, 3, 2 or 1 at rank 0 to 4 of the supervisor's sequence and
  -10 otherwise; each is a function of one party only; and the entry of the dict
  \<open>satisfaction\<close> under (student, supervisor, area) is their sum.
\<close>

theorem satisfaction_is_sum_of_rank_utilities:
  assumes "student \<in> set (student_names inst)" and "supervisor \<in> set (supervisor_names inst)"
  shows "\<exists>sp pp.
           student_preferences inst student = Some sp
         \<and> supervisor_preferences inst supervisor = Some pp
         \<and> student_points inst student area = Some (student_utility (rank_of area sp))
         \<and> supervisor_points inst supervisor area = Some (supervisor_utility (rank_of area pp))
         \<and> (area \<in> set (areas inst) \<longrightarrow>
              satisfaction_at inst (student, supervisor, area) =
                Some (student_utility (rank_of area sp) + supervisor_utility (rank_of area pp)))"
proof -
  obtain sp where sp: "student_preferences inst student = Some sp"
    using assms(1) student_preferences_defined by blast
  obtain pp where pp: "supervisor_preferences inst supervisor = Some pp"
    using assms(2) supervisor_preferences_defined by blast
  have "satisfaction_at inst (student, supervisor, area) =
          Some (student_utility (rank_of area sp) + supervisor_utility (rank_of area pp))"
    if "area \<in> set (areas inst)"
    using that assms by (simp add: satisfaction_at_eq x_keys_iff edge_weight_eq [OF sp pp])
  with sp pp show ?thesis
    by (simp add: student_points_eq supervisor_points_eq)
qed

subsection \<open>Bounds on the scores\<close>

lemma supervisor_preferences_length:
  assumes "supervisor_preferences inst supervisor = Some pp"
  shows "length pp \<le> 5"
proof -
  from assms have "\<exists>row \<in> set (supervisors inst). sup_name row = supervisor
      \<and> [normalize_area (col row). col \<leftarrow> supervisor_area_cols, notnull (col row)] = pp"
    unfolding supervisor_preferences_def by (rule dict_of_map_Some)
  then obtain row where "pp = [normalize_area (col row). col \<leftarrow> supervisor_area_cols, notnull (col row)]"
    by auto
  then show ?thesis
    by (simp add: supervisor_area_cols_def)
qed

lemma student_utility_first_three:
  "area \<in> set (take 3 sp) \<Longrightarrow> student_utility (rank_of area sp) \<in> {10, 7, 5}"
proof -
  assume "area \<in> set (take 3 sp)"
  then obtain i where "i < 3" "rank_of area sp = Some i"
    by (auto simp: rank_of_take)
  moreover from \<open>i < 3\<close> have "i = 0 \<or> i = 1 \<or> i = 2"
    by auto
  ultimately show ?thesis
    by (auto simp: student_utility_def)
qed

lemma student_utility_other:
  "area \<notin> set (take 3 sp) \<Longrightarrow> student_utility (rank_of area sp) = - 10"
proof -
  assume "area \<notin> set (take 3 sp)"
  then have "rank_of area sp \<noteq> Some 0" "rank_of area sp \<noteq> Some 1" "rank_of area sp \<noteq> Some 2"
    by (auto simp: rank_of_take)
  then show ?thesis
    by (simp add: student_utility_def)
qed

lemma supervisor_utility_listed:
  assumes "area \<in> set pp" and "length pp \<le> 5"
  shows "supervisor_utility (rank_of area pp) \<in> {5, 4, 3, 2, 1}"
proof -
  from assms have "area \<in> set (take 5 pp)"
    by simp
  then obtain i where "i < 5" "rank_of area pp = Some i"
    by (auto simp: rank_of_take)
  moreover from \<open>i < 5\<close> have "i = 0 \<or> i = 1 \<or> i = 2 \<or> i = 3 \<or> i = 4"
    by auto
  ultimately show ?thesis
    by (auto simp: supervisor_utility_def)
qed

lemma supervisor_utility_other:
  "area \<notin> set pp \<Longrightarrow> supervisor_utility (rank_of area pp) = - 10"
  using rank_of_None_iff [of area pp] by (simp add: supervisor_utility_def)

lemma satisfaction_at_Some:
  assumes "satisfaction_at inst (student, supervisor, area) = Some w"
    and "student_preferences inst student = Some sp"
    and "supervisor_preferences inst supervisor = Some pp"
  shows "w = student_utility (rank_of area sp) + supervisor_utility (rank_of area pp)"
  using assms by (simp add: satisfaction_at_eq edge_weight_eq split: if_splits)


text \<open>
  C9, as the script has it. An edge whose area is in both sequences weighs at most 15;
  it weighs at least 6 when the area is among the first three areas of the student, and
  between -9 and -5 when the student lists it fourth or later.
\<close>

theorem eligible_edge_weight_bounds:
  assumes "satisfaction_at inst (student, supervisor, area) = Some w"
    and "student_preferences inst student = Some sp"
    and "supervisor_preferences inst supervisor = Some pp"
    and "area \<in> set sp" and "area \<in> set pp"
  shows "w \<le> 15
       \<and> (area \<in> set (take 3 sp) \<longrightarrow> 6 \<le> w)
       \<and> (area \<notin> set (take 3 sp) \<longrightarrow> - 9 \<le> w \<and> w \<le> - 5)"
proof -
  have w: "w = student_utility (rank_of area sp) + supervisor_utility (rank_of area pp)"
    using assms(1-3) by (rule satisfaction_at_Some)
  have "length pp \<le> 5"
    using assms(3) by (rule supervisor_preferences_length)
  with assms(5) have sup: "1 \<le> supervisor_utility (rank_of area pp)" "supervisor_utility (rank_of area pp) \<le> 5"
    using supervisor_utility_listed [of area pp] by auto
  have stu: "student_utility (rank_of area sp) \<le> 10"
    by (simp add: student_utility_def)
  have hi: "w \<le> 15"
    using sup stu by (simp add: w)
  have mid: "area \<in> set (take 3 sp) \<longrightarrow> 6 \<le> w"
  proof
    assume "area \<in> set (take 3 sp)"
    then have "5 \<le> student_utility (rank_of area sp)"
      using student_utility_first_three [of area sp] by auto
    with sup show "6 \<le> w"
      by (simp add: w)
  qed
  have lo: "area \<notin> set (take 3 sp) \<longrightarrow> - 9 \<le> w \<and> w \<le> - 5"
    using sup by (simp add: w student_utility_other)
  from hi mid lo show ?thesis
    by (intro conjI)
qed

subsection \<open>The example workbooks, evaluated\<close>

lemmas eval_defs =
  student_preferences_def supervisor_preferences_def dict_of_def student_area_cols_def
  supervisor_area_cols_def startswith_def cells_def notnull_def re_sub_class_def lower_def
  in_class_def lower_char_def student_names_def supervisor_names_def areas_def raw_areas_def
  workload_def

lemma wb_scenario_names:
  "student_names wb_scenario = [''S'']" "supervisor_names wb_scenario = [''P'']"
  by (simp_all add: wb_scenario_def eval_defs)

lemma wb_scenario_student: "student_preferences wb_scenario ''S'' = Some [Str ''a'', Str ''b'']"
  by (simp add: wb_scenario_def eval_defs)

lemma wb_scenario_supervisor: "supervisor_preferences wb_scenario ''P'' = Some [Str ''b'', Str ''c'']"
  by (simp add: wb_scenario_def eval_defs)

lemma wb_scenario_areas: "areas wb_scenario = [Str ''b'', Str ''c'']"
  by (simp add: wb_scenario_def eval_defs)

lemma wb_scenario_workload: "workload wb_scenario ''P'' = Some 1"
  by (simp add: wb_scenario_def eval_defs)


lemma wb_tie_names:
  "student_names wb_tie = [''S'']" "supervisor_names wb_tie = [''P1'', ''P2'']"
  by (simp_all add: wb_tie_def eval_defs)

lemma wb_tie_student: "student_preferences wb_tie ''S'' = Some [Str ''tax'']"
  by (simp add: wb_tie_def eval_defs)

lemma wb_tie_supervisor:
  "supervisor_preferences wb_tie ''P1'' = Some [Str ''law'']"
  "supervisor_preferences wb_tie ''P2'' = Some [Str ''tax'']"
  by (simp_all add: wb_tie_def eval_defs)

lemma wb_tie_areas: "areas wb_tie = [Str ''law'', Str ''tax'']"
  by (simp add: wb_tie_def eval_defs)

lemma wb_tie_workload: "workload wb_tie ''P1'' = Some 1" "workload wb_tie ''P2'' = Some 0"
  by (simp_all add: wb_tie_def eval_defs)

lemma wb_alone_names:
  "student_names wb_alone = [''S'']" "supervisor_names wb_alone = [''P'']"
  by (simp_all add: wb_alone_def eval_defs)

lemma wb_alone_student: "student_preferences wb_alone ''S'' = Some [Str ''art'']"
  by (simp add: wb_alone_def eval_defs)

lemma wb_alone_supervisor: "supervisor_preferences wb_alone ''P'' = Some [Str ''law'']"
  by (simp add: wb_alone_def eval_defs)

lemma wb_alone_areas: "areas wb_alone = [Str ''law'']"
  by (simp add: wb_alone_def eval_defs)

lemma wb_alone_workload: "workload wb_alone ''P'' = Some 1"
  by (simp add: wb_alone_def eval_defs)

lemma wb_four_names:
  "student_names wb_four = [''S'']" "supervisor_names wb_four = [''P'']"
  by (simp_all add: wb_four_def eval_defs)

lemma wb_four_student:
  "student_preferences wb_four ''S'' = Some [Str ''oil'', Str ''gas'', Str ''sea'', Str ''tax'']"
  by (simp add: wb_four_def eval_defs)

lemma wb_four_supervisor:
  "supervisor_preferences wb_four ''P'' = Some [Str ''tax'', Str ''law'', Str ''art'', Str ''war'', Str ''sea'']"
  by (simp add: wb_four_def eval_defs)

lemma wb_four_areas: "areas wb_four = [Str ''tax'', Str ''law'', Str ''art'', Str ''war'', Str ''sea'']"
  by (simp add: wb_four_def eval_defs)

lemma satisfaction_at_value:
  assumes "student \<in> set (student_names inst)" and "supervisor \<in> set (supervisor_names inst)"
    and "area \<in> set (areas inst)"
    and "student_preferences inst student = Some sp"
    and "supervisor_preferences inst supervisor = Some pp"
  shows "satisfaction_at inst (student, supervisor, area) =
           Some (student_utility (rank_of area sp) + supervisor_utility (rank_of area pp))"
  using assms by (simp add: satisfaction_at_eq x_keys_iff edge_weight_eq)

lemma wb_scenario_weight: "satisfaction_at wb_scenario (''S'', ''P'', Str ''b'') = Some 12"
  by (simp add: satisfaction_at_value [OF _ _ _ wb_scenario_student wb_scenario_supervisor]
      wb_scenario_names wb_scenario_areas student_utility_def supervisor_utility_def)

lemma wb_tie_weights:
  "satisfaction_at wb_tie (''S'', ''P1'', Str ''law'') = Some (- 5)"
  "satisfaction_at wb_tie (''S'', ''P1'', Str ''tax'') = Some 0"
  "satisfaction_at wb_tie (''S'', ''P2'', Str ''law'') = Some (- 20)"
  "satisfaction_at wb_tie (''S'', ''P2'', Str ''tax'') = Some 15"
  by (simp_all add: satisfaction_at_value [OF _ _ _ wb_tie_student wb_tie_supervisor(1)]
      satisfaction_at_value [OF _ _ _ wb_tie_student wb_tie_supervisor(2)]
      wb_tie_names wb_tie_areas student_utility_def supervisor_utility_def)

lemma wb_alone_weight: "satisfaction_at wb_alone (''S'', ''P'', Str ''law'') = Some (- 5)"
  by (simp add: satisfaction_at_value [OF _ _ _ wb_alone_student wb_alone_supervisor]
      wb_alone_names wb_alone_areas student_utility_def supervisor_utility_def)

lemma wb_four_weights:
  "satisfaction_at wb_four (''S'', ''P'', Str ''sea'') = Some 6"
  "satisfaction_at wb_four (''S'', ''P'', Str ''tax'') = Some (- 5)"
  by (simp_all add: satisfaction_at_value [OF _ _ _ wb_four_student wb_four_supervisor]
      wb_four_names wb_four_areas student_utility_def supervisor_utility_def)

subsection \<open>The scoring claims on the examples\<close>

theorem satisfaction_is_sum_of_rank_utilities_witness:
  "''S'' \<in> set (student_names wb_scenario) \<and> ''P'' \<in> set (supervisor_names wb_scenario)
   \<and> Str ''b'' \<in> set (areas wb_scenario)
   \<and> student_points wb_scenario ''S'' (Str ''b'') = Some 7
   \<and> supervisor_points wb_scenario ''P'' (Str ''b'') = Some 5
   \<and> satisfaction_at wb_scenario (''S'', ''P'', Str ''b'') = Some 12"
proof -
  have s: "''S'' \<in> set (student_names wb_scenario)"
    by (simp add: wb_scenario_names)
  have p: "''P'' \<in> set (supervisor_names wb_scenario)"
    by (simp add: wb_scenario_names)
  have a: "Str ''b'' \<in> set (areas wb_scenario)"
    by (simp add: wb_scenario_areas)
  from satisfaction_is_sum_of_rank_utilities [OF s p, of "Str ''b''"]
  obtain sp pp where
    sp: "student_preferences wb_scenario ''S'' = Some sp" and
    pp: "supervisor_preferences wb_scenario ''P'' = Some pp" and
    stu: "student_points wb_scenario ''S'' (Str ''b'') = Some (student_utility (rank_of (Str ''b'') sp))" and
    sup: "supervisor_points wb_scenario ''P'' (Str ''b'') = Some (supervisor_utility (rank_of (Str ''b'') pp))" and
    sat: "Str ''b'' \<in> set (areas wb_scenario) \<longrightarrow>
            satisfaction_at wb_scenario (''S'', ''P'', Str ''b'') =
              Some (student_utility (rank_of (Str ''b'') sp) + supervisor_utility (rank_of (Str ''b'') pp))"
    by blast
  from sp have sp_eq: "sp = [Str ''a'', Str ''b'']"
    by (simp add: wb_scenario_student)
  from pp have pp_eq: "pp = [Str ''b'', Str ''c'']"
    by (simp add: wb_scenario_supervisor)
  from stu have stu7: "student_points wb_scenario ''S'' (Str ''b'') = Some 7"
    by (simp add: sp_eq student_utility_def)
  from sup have sup5: "supervisor_points wb_scenario ''P'' (Str ''b'') = Some 5"
    by (simp add: pp_eq supervisor_utility_def)
  from sat a have sat12: "satisfaction_at wb_scenario (''S'', ''P'', Str ''b'') = Some 12"
    by (simp add: sp_eq pp_eq student_utility_def supervisor_utility_def)
  from s p a stu7 sup5 sat12 show ?thesis
    by (intro conjI)
qed



theorem eligible_edge_weight_bounds_witness:
  "satisfaction_at wb_four (''S'', ''P'', Str ''sea'') = Some 6
   \<and> student_preferences wb_four ''S'' = Some [Str ''oil'', Str ''gas'', Str ''sea'', Str ''tax'']
   \<and> supervisor_preferences wb_four ''P'' = Some [Str ''tax'', Str ''law'', Str ''art'', Str ''war'', Str ''sea'']
   \<and> Str ''sea'' \<in> set [Str ''oil'', Str ''gas'', Str ''sea'', Str ''tax'']
   \<and> Str ''sea'' \<in> set [Str ''tax'', Str ''law'', Str ''art'', Str ''war'', Str ''sea'']
   \<and> (6 :: int) \<le> 15"
proof -
  have a: "Str ''sea'' \<in> set [Str ''oil'', Str ''gas'', Str ''sea'', Str ''tax'']"
    by simp
  have b: "Str ''sea'' \<in> set [Str ''tax'', Str ''law'', Str ''art'', Str ''war'', Str ''sea'']"
    by simp
  from eligible_edge_weight_bounds [OF wb_four_weights(1) wb_four_student wb_four_supervisor a b]
  have "(6 :: int) \<le> 15"
    by blast
  with wb_four_weights(1) wb_four_student wb_four_supervisor a b show ?thesis
    by (intro conjI)
qed

text \<open>
  Counterexample to C9 as stated: in \<open>wb_four\<close> the area sea is the student's third and the
  supervisor's fifth, the edge weighs 5 + 1 = 6, which is below 11; and the area tax is
  the student's fourth and the supervisor's first, an edge in both sequences that weighs
  -10 + 5 = -5.
\<close>

theorem eligible_edge_below_eleven:
  "student_preferences wb_four ''S'' = Some [Str ''oil'', Str ''gas'', Str ''sea'', Str ''tax'']
   \<and> supervisor_preferences wb_four ''P'' = Some [Str ''tax'', Str ''law'', Str ''art'', Str ''war'', Str ''sea'']
   \<and> satisfaction_at wb_four (''S'', ''P'', Str ''sea'') = Some 6
   \<and> satisfaction_at wb_four (''S'', ''P'', Str ''tax'') = Some (- 5)
   \<and> \<not> (11 :: int) \<le> 6"
  by (simp add: wb_four_student wb_four_supervisor wb_four_weights)

subsection \<open>Where the sequences and the areas come from\<close>

lemma comprehension_of_filtered:
  "[f c. c \<leftarrow> [c. c \<leftarrow> xs, P c], Q c] = [f c. c \<leftarrow> xs, P c, Q c]"
  by (induction xs) auto

lemma student_row_prefs:
  "[normalize_area (stu_cell row col). col \<leftarrow> student_area_cols inst, notnull (stu_cell row col)] =
   [normalize_area (stu_cell row col). col \<leftarrow> student_columns inst, startswith col ''proposal_'', notnull (stu_cell row col)]"
  unfolding student_area_cols_def by (rule comprehension_of_filtered)

lemma student_points_beyond_three:
  assumes "student_preferences inst student = Some prefs" and "area \<notin> set (take 3 prefs)"
  shows "student_points inst student area = Some (- 10)"
  using assms by (simp add: student_points_eq student_utility_other)

text \<open>
  C10. The sequence of a student is made of the non-missing cells of every column of the
  students sheet whose name starts with \<open>proposal_\<close>, normalized, in the order of the
  columns; it can be longer than three (\<open>wb_four\<close> has a student with four areas); an
  area whose rank in it is 3 or more scores -10 for the student, as an area the student
  did not list does, so it adds nothing positive on the student's side.
\<close>

theorem student_sequence_all_proposal_columns_scored_to_three:
  assumes "student_preferences inst student = Some prefs"
  shows "(\<exists>row \<in> set (students inst). stu_name row = student
            \<and> prefs = [normalize_area (stu_cell row col).
                        col \<leftarrow> student_columns inst, startswith col ''proposal_'', notnull (stu_cell row col)])
       \<and> (\<exists>inst' student' prefs'. student_preferences inst' student' = Some prefs' \<and> 3 < length prefs')
       \<and> (\<forall>area i. rank_of area prefs = Some i \<and> 3 \<le> i \<longrightarrow> student_points inst student area = Some (- 10))
       \<and> (\<forall>area. area \<notin> set prefs \<longrightarrow> student_points inst student area = Some (- 10))"
proof -
  from assms have "\<exists>row \<in> set (students inst). stu_name row = student
      \<and> [normalize_area (stu_cell row col). col \<leftarrow> student_area_cols inst, notnull (stu_cell row col)] = prefs"
    unfolding student_preferences_def by (rule dict_of_map_Some)
  then have built: "\<exists>row \<in> set (students inst). stu_name row = student
      \<and> prefs = [normalize_area (stu_cell row col).
                  col \<leftarrow> student_columns inst, startswith col ''proposal_'', notnull (stu_cell row col)]"
    unfolding student_row_prefs by blast
  have "student_preferences wb_four ''S'' = Some [Str ''oil'', Str ''gas'', Str ''sea'', Str ''tax'']
        \<and> 3 < length [Str ''oil'', Str ''gas'', Str ''sea'', Str ''tax'']"
    by (simp add: wb_four_student)
  then have more: "\<exists>inst' student' prefs'. student_preferences inst' student' = Some prefs' \<and> 3 < length prefs'"
    by blast
  have late: "\<forall>area i. rank_of area prefs = Some i \<and> 3 \<le> i \<longrightarrow> student_points inst student area = Some (- 10)"
  proof (intro allI impI)
    fix area i
    assume r: "rank_of area prefs = Some i \<and> 3 \<le> i"
    then have "area \<notin> set (take 3 prefs)"
      by (auto simp: rank_of_take)
    with assms show "student_points inst student area = Some (- 10)"
      by (rule student_points_beyond_three)
  qed
  have unlisted: "\<forall>area. area \<notin> set prefs \<longrightarrow> student_points inst student area = Some (- 10)"
    using assms by (auto intro: student_points_beyond_three dest: in_set_takeD)
  from built more late unlisted show ?thesis
    by (intro conjI)
qed

theorem student_sequence_all_proposal_columns_scored_to_three_witness:
  "student_preferences wb_four ''S'' = Some [Str ''oil'', Str ''gas'', Str ''sea'', Str ''tax'']
   \<and> rank_of (Str ''tax'') [Str ''oil'', Str ''gas'', Str ''sea'', Str ''tax''] = Some 3
   \<and> student_points wb_four ''S'' (Str ''tax'') = Some (- 10)
   \<and> student_points wb_four ''S'' (Str ''law'') = Some (- 10)"
proof -
  have r: "rank_of (Str ''tax'') [Str ''oil'', Str ''gas'', Str ''sea'', Str ''tax''] = Some 3"
    by simp
  have n: "Str ''law'' \<notin> set [Str ''oil'', Str ''gas'', Str ''sea'', Str ''tax'']"
    by simp
  from student_sequence_all_proposal_columns_scored_to_three [OF wb_four_student] r n
  have "student_points wb_four ''S'' (Str ''tax'') = Some (- 10)"
    and "student_points wb_four ''S'' (Str ''law'') = Some (- 10)"
    by blast+
  with wb_four_student r show ?thesis
    by (intro conjI)
qed

lemma set_row_prefs:
  "set [normalize_area (col row). col \<leftarrow> supervisor_area_cols, notnull (col row)] =
   {normalize_area (col row) | col. col \<in> set supervisor_area_cols \<and> notnull (col row)}"
  by auto

lemma set_areas:
  "set (areas inst) =
   {normalize_area (col row) | row col. row \<in> set (supervisors inst) \<and> col \<in> set supervisor_area_cols \<and> notnull (col row)}"
  unfolding areas_def raw_areas_def supervisor_area_cols_def by auto

text \<open>
  C4, as the script has it. The areas over which variables are created are the
  normalized non-missing cells of the five area columns of the supervisors sheet: every
  area of a supervisor's sequence is among them, every key of \<open>x\<close> has its area among
  them, and the students sheet is not read for them.
\<close>

theorem areas_are_the_supervisors_areas:
  "(a \<in> set (areas inst) \<longleftrightarrow>
      (\<exists>row \<in> set (supervisors inst). \<exists>col \<in> set supervisor_area_cols.
         notnull (col row) \<and> a = normalize_area (col row)))
   \<and> (supervisor_preferences inst supervisor = Some pp \<longrightarrow> set pp \<subseteq> set (areas inst))
   \<and> ((student, supervisor, a) \<in> set (x_keys inst) \<longrightarrow> a \<in> set (areas inst))
   \<and> areas (inst\<lparr>students := rows, student_columns := cols\<rparr>) = areas inst"
proof -
  have iff: "a \<in> set (areas inst) \<longleftrightarrow>
      (\<exists>row \<in> set (supervisors inst). \<exists>col \<in> set supervisor_area_cols.
         notnull (col row) \<and> a = normalize_area (col row))"
    unfolding set_areas by blast
  have sub: "supervisor_preferences inst supervisor = Some pp \<longrightarrow> set pp \<subseteq> set (areas inst)"
  proof
    assume "supervisor_preferences inst supervisor = Some pp"
    then have "\<exists>row \<in> set (supervisors inst). sup_name row = supervisor
        \<and> [normalize_area (col row). col \<leftarrow> supervisor_area_cols, notnull (col row)] = pp"
      unfolding supervisor_preferences_def by (rule dict_of_map_Some)
    then obtain row where row: "row \<in> set (supervisors inst)"
      and pp: "pp = [normalize_area (col row). col \<leftarrow> supervisor_area_cols, notnull (col row)]"
      by auto
    show "set pp \<subseteq> set (areas inst)"
      unfolding pp set_row_prefs set_areas using row by blast
  qed
  have keys: "(student, supervisor, a) \<in> set (x_keys inst) \<longrightarrow> a \<in> set (areas inst)"
    by (simp add: x_keys_iff)
  have frame: "areas (inst\<lparr>students := rows, student_columns := cols\<rparr>) = areas inst"
    by (simp add: areas_def raw_areas_def)
  from iff sub keys frame show ?thesis
    by (intro conjI)
qed

theorem areas_are_the_supervisors_areas_witness:
  "supervisor_preferences wb_scenario ''P'' = Some [Str ''b'', Str ''c'']
   \<and> (''S'', ''P'', Str ''b'') \<in> set (x_keys wb_scenario)
   \<and> set [Str ''b'', Str ''c''] \<subseteq> set (areas wb_scenario)
   \<and> Str ''b'' \<in> set (areas wb_scenario)"
proof -
  have k: "(''S'', ''P'', Str ''b'') \<in> set (x_keys wb_scenario)"
    by (simp add: x_keys_iff wb_scenario_names wb_scenario_areas)
  from areas_are_the_supervisors_areas [of "Str ''b''" wb_scenario "''P''" "[Str ''b'', Str ''c'']" "''S''"]
    wb_scenario_supervisor k
  have "set [Str ''b'', Str ''c''] \<subseteq> set (areas wb_scenario)" and "Str ''b'' \<in> set (areas wb_scenario)"
    by blast+
  with wb_scenario_supervisor k show ?thesis
    by (intro conjI)
qed

text \<open>
  Counterexample to C4 as stated: in \<open>wb_alone\<close> the student names the area art, no
  supervisor does, and art is not in the list of areas.
\<close>

theorem student_only_area_not_in_areas:
  "student_preferences wb_alone ''S'' = Some [Str ''art'']
   \<and> Str ''art'' \<in> set [Str ''art'']
   \<and> Str ''art'' \<notin> set (areas wb_alone)"
  by (simp add: wb_alone_student wb_alone_areas)

subsection \<open>The linear program that is built\<close>

lemma satisfaction_lookup_all:
  assumes "satisfaction inst = Some d"
  shows "lookup_all d (x_keys inst) = Some (map (\<lambda>k. (k, the (edge_weight inst k))) (x_keys inst))"
proof (rule lookup_all_Some)
  fix k
  assume k: "k \<in> set (x_keys inst)"
  then obtain w where "edge_weight inst k = Some w"
    using edge_weight_defined by blast
  moreover from assms have "d k = (if k \<in> set (x_keys inst) then edge_weight inst k else None)"
    using satisfaction_eq [of inst] by auto
  ultimately show "d k = Some (the (edge_weight inst k))"
    using k by simp
qed

lemma workload_lookup_all:
  "lookup_all (workload inst) (supervisor_names inst) =
     Some (map (\<lambda>supervisor. (supervisor, the (workload inst supervisor))) (supervisor_names inst))"
proof (rule lookup_all_Some)
  fix supervisor
  assume "supervisor \<in> set (supervisor_names inst)"
  then obtain w where "workload inst supervisor = Some w"
    using workload_defined by blast
  then show "workload inst supervisor = Some (the (workload inst supervisor))"
    by simp
qed

lemma objective_terms_eq:
  assumes "satisfaction inst = Some d"
  shows "objective_terms inst d = Some (map (\<lambda>k. (the (edge_weight inst k), k)) (x_keys inst))"
  unfolding objective_terms_def satisfaction_lookup_all [OF assms] by (simp add: comp_def)

lemma supervisor_constraints_eq:
  "supervisor_constraints inst =
     Some (map (\<lambda>supervisor.
                  \<lparr>c_vars = [(student, supervisor, area). student \<leftarrow> student_names inst, area \<leftarrow> areas inst],
                   c_sense = LE, c_rhs = the (workload inst supervisor)\<rparr>)
               (supervisor_names inst))"
  unfolding supervisor_constraints_def workload_lookup_all by (simp add: comp_def)

lemma eligibility_constraints_eq:
  assumes "satisfaction inst = Some d"
  shows "eligibility_constraints inst d =
     Some [\<lparr>c_vars = [k], c_sense = EQ, c_rhs = 0\<rparr>. k \<leftarrow> x_keys inst, the (edge_weight inst k) = - 20]"
  unfolding eligibility_constraints_def satisfaction_lookup_all [OF assms]
  by (simp add: comp_def)

lemma prob_eq:
  "prob inst =
     Some \<lparr>variables = x_keys inst,
           objective = map (\<lambda>k. (the (edge_weight inst k), k)) (x_keys inst),
           constraints =
             student_constraints inst
             @ map (\<lambda>supervisor.
                      \<lparr>c_vars = [(student, supervisor, area). student \<leftarrow> student_names inst, area \<leftarrow> areas inst],
                       c_sense = LE, c_rhs = the (workload inst supervisor)\<rparr>)
                   (supervisor_names inst)
             @ [\<lparr>c_vars = [k], c_sense = EQ, c_rhs = 0\<rparr>. k \<leftarrow> x_keys inst, the (edge_weight inst k) = - 20]\<rparr>"
proof -
  obtain d where d: "satisfaction inst = Some d"
    using satisfaction_eq by blast
  show ?thesis
    unfolding prob_def d
    by (simp add: objective_terms_eq [OF d] supervisor_constraints_eq eligibility_constraints_eq [OF d])
qed

lemma satisfaction_at_the:
  "k \<in> set (x_keys inst) \<Longrightarrow> satisfaction_at inst k = Some w \<longleftrightarrow> the (edge_weight inst k) = w"
  using edge_weight_defined [of k inst] by (auto simp: satisfaction_at_eq)

text \<open>
  C2. The program handed to the solver is built without a failing lookup, its variables
  are the keys of \<open>x\<close>, and its constraints are exactly: for every student, the sum of
  the student's variables over all supervisors and areas is at most 1; for every
  supervisor, the sum of the supervisor's variables over all students and areas is at
  most the supervisor's workload; for every key whose satisfaction is -20, the variable
  equals 0.
\<close>

theorem prob_has_exactly_the_three_constraint_families:
  "\<exists>p. prob inst = Some p \<and> variables p = x_keys inst
     \<and> (\<forall>c. c \<in> set (constraints p) \<longleftrightarrow>
          (\<exists>student \<in> set (student_names inst).
             c = \<lparr>c_vars = [(student, supervisor, area). supervisor \<leftarrow> supervisor_names inst, area \<leftarrow> areas inst],
                  c_sense = LE, c_rhs = 1\<rparr>)
        \<or> (\<exists>supervisor \<in> set (supervisor_names inst). \<exists>w. workload inst supervisor = Some w
              \<and> c = \<lparr>c_vars = [(student, supervisor, area). student \<leftarrow> student_names inst, area \<leftarrow> areas inst],
                      c_sense = LE, c_rhs = w\<rparr>)
        \<or> (\<exists>k \<in> set (x_keys inst). satisfaction_at inst k = Some (- 20)
              \<and> c = \<lparr>c_vars = [k], c_sense = EQ, c_rhs = 0\<rparr>))"
proof -
  let ?p = "\<lparr>variables = x_keys inst,
           objective = map (\<lambda>k. (the (edge_weight inst k), k)) (x_keys inst),
           constraints =
             student_constraints inst
             @ map (\<lambda>supervisor.
                      \<lparr>c_vars = [(student, supervisor, area). student \<leftarrow> student_names inst, area \<leftarrow> areas inst],
                       c_sense = LE, c_rhs = the (workload inst supervisor)\<rparr>)
                   (supervisor_names inst)
             @ [\<lparr>c_vars = [k], c_sense = EQ, c_rhs = 0\<rparr>. k \<leftarrow> x_keys inst, the (edge_weight inst k) = - 20]\<rparr>"
  have p: "prob inst = Some ?p"
    by (rule prob_eq)
  have v: "variables ?p = x_keys inst"
    by simp
  have c: "c \<in> set (constraints ?p) \<longleftrightarrow>
          (\<exists>student \<in> set (student_names inst).
             c = \<lparr>c_vars = [(student, supervisor, area). supervisor \<leftarrow> supervisor_names inst, area \<leftarrow> areas inst],
                  c_sense = LE, c_rhs = 1\<rparr>)
        \<or> (\<exists>supervisor \<in> set (supervisor_names inst). \<exists>w. workload inst supervisor = Some w
              \<and> c = \<lparr>c_vars = [(student, supervisor, area). student \<leftarrow> student_names inst, area \<leftarrow> areas inst],
                      c_sense = LE, c_rhs = w\<rparr>)
        \<or> (\<exists>k \<in> set (x_keys inst). satisfaction_at inst k = Some (- 20)
              \<and> c = \<lparr>c_vars = [k], c_sense = EQ, c_rhs = 0\<rparr>)" for c
  proof -
    have s1: "c \<in> set (student_constraints inst) \<longleftrightarrow>
          (\<exists>student \<in> set (student_names inst).
             c = \<lparr>c_vars = [(student, supervisor, area). supervisor \<leftarrow> supervisor_names inst, area \<leftarrow> areas inst],
                  c_sense = LE, c_rhs = 1\<rparr>)"
      unfolding student_constraints_def by auto
    have s2: "c \<in> set (map (\<lambda>supervisor.
                      \<lparr>c_vars = [(student, supervisor, area). student \<leftarrow> student_names inst, area \<leftarrow> areas inst],
                       c_sense = LE, c_rhs = the (workload inst supervisor)\<rparr>)
                   (supervisor_names inst)) \<longleftrightarrow>
           (\<exists>supervisor \<in> set (supervisor_names inst). \<exists>w. workload inst supervisor = Some w
              \<and> c = \<lparr>c_vars = [(student, supervisor, area). student \<leftarrow> student_names inst, area \<leftarrow> areas inst],
                      c_sense = LE, c_rhs = w\<rparr>)"
      using workload_defined [of _ inst] by fastforce
    have s3: "c \<in> set [\<lparr>c_vars = [k], c_sense = EQ, c_rhs = 0\<rparr>. k \<leftarrow> x_keys inst, the (edge_weight inst k) = - 20] \<longleftrightarrow>
           (\<exists>k \<in> set (x_keys inst). satisfaction_at inst k = Some (- 20)
              \<and> c = \<lparr>c_vars = [k], c_sense = EQ, c_rhs = 0\<rparr>)"
      using satisfaction_at_the [of _ inst "- 20"] by auto
    show ?thesis
      unfolding lp_problem.simps set_append Un_iff s1 s2 s3 by blast
  qed
  from p v c show ?thesis
    by blast
qed


lemma wb_tie_keys:
  "x_keys wb_tie =
     [(''S'', ''P1'', Str ''law''), (''S'', ''P1'', Str ''tax''),
      (''S'', ''P2'', Str ''law''), (''S'', ''P2'', Str ''tax'')]"
  by (simp add: x_keys_def wb_tie_names wb_tie_areas)

theorem prob_has_exactly_the_three_constraint_families_witness:
  "\<exists>p. prob wb_tie = Some p
     \<and> \<lparr>c_vars = [(''S'', ''P1'', Str ''law''), (''S'', ''P1'', Str ''tax''),
                   (''S'', ''P2'', Str ''law''), (''S'', ''P2'', Str ''tax'')],
         c_sense = LE, c_rhs = 1\<rparr> \<in> set (constraints p)
     \<and> \<lparr>c_vars = [(''S'', ''P2'', Str ''law''), (''S'', ''P2'', Str ''tax'')],
         c_sense = LE, c_rhs = 0\<rparr> \<in> set (constraints p)
     \<and> \<lparr>c_vars = [(''S'', ''P2'', Str ''law'')], c_sense = EQ, c_rhs = 0\<rparr> \<in> set (constraints p)
     \<and> \<lparr>c_vars = [(''S'', ''P1'', Str ''tax'')], c_sense = EQ, c_rhs = 0\<rparr> \<notin> set (constraints p)"
proof -
  from prob_has_exactly_the_three_constraint_families [of wb_tie]
  obtain p where p: "prob wb_tie = Some p"
    and c: "\<And>c. c \<in> set (constraints p) \<longleftrightarrow>
          (\<exists>student \<in> set (student_names wb_tie).
             c = \<lparr>c_vars = [(student, supervisor, area). supervisor \<leftarrow> supervisor_names wb_tie, area \<leftarrow> areas wb_tie],
                  c_sense = LE, c_rhs = 1\<rparr>)
        \<or> (\<exists>supervisor \<in> set (supervisor_names wb_tie). \<exists>w. workload wb_tie supervisor = Some w
              \<and> c = \<lparr>c_vars = [(student, supervisor, area). student \<leftarrow> student_names wb_tie, area \<leftarrow> areas wb_tie],
                      c_sense = LE, c_rhs = w\<rparr>)
        \<or> (\<exists>k \<in> set (x_keys wb_tie). satisfaction_at wb_tie k = Some (- 20)
              \<and> c = \<lparr>c_vars = [k], c_sense = EQ, c_rhs = 0\<rparr>)"
    by blast
  have c1: "\<lparr>c_vars = [(''S'', ''P1'', Str ''law''), (''S'', ''P1'', Str ''tax''),
                   (''S'', ''P2'', Str ''law''), (''S'', ''P2'', Str ''tax'')],
         c_sense = LE, c_rhs = 1\<rparr> \<in> set (constraints p)"
    unfolding c by (simp add: wb_tie_names wb_tie_areas)
  have c2: "\<lparr>c_vars = [(''S'', ''P2'', Str ''law''), (''S'', ''P2'', Str ''tax'')],
         c_sense = LE, c_rhs = 0\<rparr> \<in> set (constraints p)"
    unfolding c by (simp add: wb_tie_names wb_tie_areas wb_tie_workload)
  have c3: "\<lparr>c_vars = [(''S'', ''P2'', Str ''law'')], c_sense = EQ, c_rhs = 0\<rparr> \<in> set (constraints p)"
    unfolding c by (simp add: wb_tie_keys wb_tie_weights)
  have c4: "\<lparr>c_vars = [(''S'', ''P1'', Str ''tax'')], c_sense = EQ, c_rhs = 0\<rparr> \<notin> set (constraints p)"
    unfolding c by (simp add: wb_tie_keys wb_tie_weights)
  from p c1 c2 c3 c4 show ?thesis
    by blast
qed

subsection \<open>What a feasible assignment satisfies\<close>

lemma feasible_binary:
  assumes "prob inst = Some p" and "feasible p u" and "k \<in> set (x_keys inst)"
  shows "u k = 0 \<or> u k = 1"
proof -
  from assms(1) have "variables p = x_keys inst"
    using prob_eq [of inst] by auto
  with assms(2,3) show ?thesis
    by (auto simp: feasible_def list_all_iff is_binary_def)
qed

lemma feasible_student:
  assumes "prob inst = Some p" and "feasible p u" and "student \<in> set (student_names inst)"
  shows "lp_sum u [(student, supervisor, area). supervisor \<leftarrow> supervisor_names inst, area \<leftarrow> areas inst] \<le> 1"
proof -
  let ?c = "\<lparr>c_vars = [(student, supervisor, area). supervisor \<leftarrow> supervisor_names inst, area \<leftarrow> areas inst],
            c_sense = LE, c_rhs = 1\<rparr>"
  have "?c \<in> set (student_constraints inst)"
    using assms(3) unfolding student_constraints_def by auto
  with assms(1) have "?c \<in> set (constraints p)"
    using prob_eq [of inst] by auto
  with assms(2) have "holds u ?c"
    by (auto simp: feasible_def list_all_iff)
  then show ?thesis
    by (simp add: holds_def)
qed

lemma feasible_supervisor:
  assumes "prob inst = Some p" and "feasible p u" and "supervisor \<in> set (supervisor_names inst)"
    and "workload inst supervisor = Some w"
  shows "lp_sum u [(student, supervisor, area). student \<leftarrow> student_names inst, area \<leftarrow> areas inst] \<le> of_int w"
proof -
  let ?c = "\<lparr>c_vars = [(student, supervisor, area). student \<leftarrow> student_names inst, area \<leftarrow> areas inst],
            c_sense = LE, c_rhs = the (workload inst supervisor)\<rparr>"
  have "?c \<in> set (constraints p)"
    using assms(1,3) prob_eq [of inst] by auto
  with assms(2) have "holds u ?c"
    by (auto simp: feasible_def list_all_iff)
  then show ?thesis
    by (simp add: holds_def assms(4))
qed

lemma feasible_pruned:
  assumes "prob inst = Some p" and "feasible p u" and "k \<in> set (x_keys inst)"
    and "satisfaction_at inst k = Some (- 20)"
  shows "u k = 0"
proof -
  let ?c = "\<lparr>c_vars = [k], c_sense = EQ, c_rhs = 0\<rparr>"
  from assms(3,4) have "the (edge_weight inst k) = - 20"
    by (simp add: satisfaction_at_the)
  with assms(1,3) have "?c \<in> set (constraints p)"
    using prob_eq [of inst] by auto
  with assms(2) have "holds u ?c"
    by (auto simp: feasible_def list_all_iff)
  then show ?thesis
    by (simp add: holds_def lp_sum_def)
qed

subsection \<open>Counting selected keys\<close>

lemma selected_var_values_of: "selected (var_values_of u) k \<longleftrightarrow> 1 / 2 < u k"
  by (simp add: selected_def var_values_of_def)

lemma count_selected_eq_lp_sum:
  "(\<And>k. k \<in> set ks \<Longrightarrow> u k = 0 \<or> u k = 1) \<Longrightarrow>
   of_nat (length (filter (selected (var_values_of u)) ks)) = lp_sum u ks"
proof (induction ks)
  case Nil
  then show ?case by (simp add: lp_sum_def)
next
  case (Cons k ks)
  have bin: "u k = 0 \<or> u k = 1"
    by (rule Cons.prems) simp
  then have sel: "selected (var_values_of u) k \<longleftrightarrow> u k = 1"
    by (auto simp: selected_var_values_of)
  have "of_nat (length (filter (selected (var_values_of u)) ks)) = lp_sum u ks"
    by (rule Cons.IH) (simp add: Cons.prems)
  with bin sel show ?case
    by (auto simp: lp_sum_def)
qed

lemma comprehension_filter:
  "[f a b. a \<leftarrow> xs, b \<leftarrow> ys, P (f a b)] = filter P [f a b. a \<leftarrow> xs, b \<leftarrow> ys]"
proof -
  have inner: "[f a b. b \<leftarrow> ys, P (f a b)] = filter P [f a b. b \<leftarrow> ys]" for a
    by (induction ys) auto
  show ?thesis
    by (induction xs) (auto simp: inner)
qed

lemma count_eq:
  "count inst varValue supervisor =
     length (filter (selected varValue)
       [(student, supervisor, area). student \<leftarrow> student_names inst, area \<leftarrow> areas inst])"
  unfolding count_def
  using comprehension_filter [where f = "\<lambda>student area. (student, supervisor, area)" and P = "selected varValue"]
  by simp

subsection \<open>Optimal assignments\<close>

lemma solved_iff: "solved inst u \<longleftrightarrow> (\<exists>p. prob inst = Some p \<and> optimal p u)"
  by (simp add: solved_def split: option.splits)

lemma objective_value_eq:
  assumes "prob inst = Some p"
  shows "objective_value p v = sum_list (map (\<lambda>k. of_int (the (edge_weight inst k)) * v k) (x_keys inst))"
proof -
  from assms have "objective p = map (\<lambda>k. (the (edge_weight inst k), k)) (x_keys inst)"
    using prob_eq [of inst] by auto
  then show ?thesis
    by (simp add: objective_value_def comp_def)
qed

lemma feasibleI:
  assumes "prob inst = Some p"
    and bin: "\<And>k. k \<in> set (x_keys inst) \<Longrightarrow> u k = 0 \<or> u k = 1"
    and stu: "\<And>student. student \<in> set (student_names inst) \<Longrightarrow>
        lp_sum u [(student, supervisor, area). supervisor \<leftarrow> supervisor_names inst, area \<leftarrow> areas inst] \<le> 1"
    and sup: "\<And>supervisor. supervisor \<in> set (supervisor_names inst) \<Longrightarrow>
        lp_sum u [(student, supervisor, area). student \<leftarrow> student_names inst, area \<leftarrow> areas inst]
          \<le> of_int (the (workload inst supervisor))"
    and cut: "\<And>k. k \<in> set (x_keys inst) \<Longrightarrow> satisfaction_at inst k = Some (- 20) \<Longrightarrow> u k = 0"
  shows "feasible p u"
proof -
  from assms(1) have v: "variables p = x_keys inst"
    and c: "constraints p =
             student_constraints inst
             @ map (\<lambda>supervisor.
                      \<lparr>c_vars = [(student, supervisor, area). student \<leftarrow> student_names inst, area \<leftarrow> areas inst],
                       c_sense = LE, c_rhs = the (workload inst supervisor)\<rparr>)
                   (supervisor_names inst)
             @ [\<lparr>c_vars = [k], c_sense = EQ, c_rhs = 0\<rparr>. k \<leftarrow> x_keys inst, the (edge_weight inst k) = - 20]"
    using prob_eq [of inst] by auto
  have b: "list_all (is_binary u) (variables p)"
    unfolding v list_all_iff is_binary_def using bin by blast
  have c1: "list_all (holds u) (student_constraints inst)"
    unfolding list_all_iff student_constraints_def using stu by (auto simp: holds_def)
  have c2: "list_all (holds u) (map (\<lambda>supervisor.
                      \<lparr>c_vars = [(student, supervisor, area). student \<leftarrow> student_names inst, area \<leftarrow> areas inst],
                       c_sense = LE, c_rhs = the (workload inst supervisor)\<rparr>)
                   (supervisor_names inst))"
    unfolding list_all_iff using sup by (auto simp: holds_def)
  have c3: "list_all (holds u)
      [\<lparr>c_vars = [k], c_sense = EQ, c_rhs = 0\<rparr>. k \<leftarrow> x_keys inst, the (edge_weight inst k) = - 20]"
    unfolding list_all_iff using cut by (auto simp: holds_def lp_sum_def satisfaction_at_the)
  from b c1 c2 c3 show ?thesis
    unfolding feasible_def c by simp
qed

lemma lp_sum_mono: "(\<And>k. k \<in> set ks \<Longrightarrow> u k \<le> v k) \<Longrightarrow> lp_sum u ks \<le> lp_sum v ks"
  unfolding lp_sum_def by (induction ks) (auto intro: add_mono)

lemma sum_list_strict:
  fixes f g :: "'a \<Rightarrow> rat"
  assumes "\<And>k. k \<in> set ks \<Longrightarrow> f k \<le> g k" and "k0 \<in> set ks" and "f k0 < g k0"
  shows "sum_list (map f ks) < sum_list (map g ks)"
  using assms
proof (induction ks)
  case Nil
  then show ?case by simp
next
  case (Cons k ks)
  have le: "sum_list (map f ks) \<le> sum_list (map g ks)"
    by (rule sum_list_mono) (simp add: Cons.prems(1))
  have k: "f k \<le> g k"
    by (rule Cons.prems(1)) simp
  show ?case
  proof (cases "k = k0")
    case True
    with Cons.prems(3) le show ?thesis
      by (simp add: add_less_le_mono)
  next
    case False
    with Cons.prems have "sum_list (map f ks) < sum_list (map g ks)"
      by (intro Cons.IH) auto
    with k show ?thesis
      by (simp add: add_le_less_mono)
  qed
qed

lemma dropping_a_key_keeps_feasible:
  assumes p: "prob inst = Some p" and f: "feasible p u" and k0: "k0 \<in> set (x_keys inst)"
  shows "feasible p (u(k0 := 0))"
proof (rule feasibleI [OF p])
  fix k
  assume "k \<in> set (x_keys inst)"
  then show "(u(k0 := 0)) k = 0 \<or> (u(k0 := 0)) k = 1"
    using feasible_binary [OF p f] by simp
next
  have below: "(u(k0 := 0)) k \<le> u k" for k
    using feasible_binary [OF p f k0] by auto
  {
    fix student
    assume s: "student \<in> set (student_names inst)"
    have "lp_sum (u(k0 := 0)) [(student, supervisor, area). supervisor \<leftarrow> supervisor_names inst, area \<leftarrow> areas inst]
        \<le> lp_sum u [(student, supervisor, area). supervisor \<leftarrow> supervisor_names inst, area \<leftarrow> areas inst]"
      by (rule lp_sum_mono) (rule below)
    also have "\<dots> \<le> 1"
      by (rule feasible_student [OF p f s])
    finally show "lp_sum (u(k0 := 0)) [(student, supervisor, area). supervisor \<leftarrow> supervisor_names inst, area \<leftarrow> areas inst] \<le> 1" .
  }
  {
    fix supervisor
    assume s: "supervisor \<in> set (supervisor_names inst)"
    then obtain w where w: "workload inst supervisor = Some w"
      using workload_defined by blast
    have "lp_sum (u(k0 := 0)) [(student, supervisor, area). student \<leftarrow> student_names inst, area \<leftarrow> areas inst]
        \<le> lp_sum u [(student, supervisor, area). student \<leftarrow> student_names inst, area \<leftarrow> areas inst]"
      by (rule lp_sum_mono) (rule below)
    also have "\<dots> \<le> of_int w"
      by (rule feasible_supervisor [OF p f s w])
    finally show "lp_sum (u(k0 := 0)) [(student, supervisor, area). student \<leftarrow> student_names inst, area \<leftarrow> areas inst]
        \<le> of_int (the (workload inst supervisor))"
      by (simp add: w)
  }
  {
    fix k
    assume "k \<in> set (x_keys inst)" "satisfaction_at inst k = Some (- 20)"
    then have "u k = 0"
      by (rule feasible_pruned [OF p f])
    then show "(u(k0 := 0)) k = 0"
      by simp
  }
qed

lemma optimal_drops_negative_keys:
  assumes p: "prob inst = Some p" and opt: "optimal p u" and k0: "k0 \<in> set (x_keys inst)"
    and w: "satisfaction_at inst k0 = Some w" and neg: "w < 0"
  shows "u k0 = 0"
proof (rule ccontr)
  assume "u k0 \<noteq> 0"
  from opt have f: "feasible p u"
    by (simp add: optimal_def)
  with \<open>u k0 \<noteq> 0\<close> have one: "u k0 = 1"
    using feasible_binary [OF p f k0] by simp
  from w k0 have the_w: "the (edge_weight inst k0) = w"
    by (simp add: satisfaction_at_the)
  let ?u' = "u(k0 := 0)"
  have "feasible p ?u'"
    by (rule dropping_a_key_keeps_feasible [OF p f k0])
  with opt have "objective_value p ?u' \<le> objective_value p u"
    by (simp add: optimal_def)
  moreover have "objective_value p u < objective_value p ?u'"
    unfolding objective_value_eq [OF p]
  proof (rule sum_list_strict [where ?k0.0 = k0])
    show "k0 \<in> set (x_keys inst)"
      by (rule k0)
    show "of_int (the (edge_weight inst k0)) * u k0 < of_int (the (edge_weight inst k0)) * ?u' k0"
      using neg by (simp add: the_w one)
    show "of_int (the (edge_weight inst k)) * u k \<le> of_int (the (edge_weight inst k)) * ?u' k"
      if "k \<in> set (x_keys inst)" for k
      using neg by (cases "k = k0") (simp_all add: the_w one)
  qed
  ultimately show False
    by simp
qed

subsection \<open>The selected edges of a solved run\<close>

lemma student_keys_in_x_keys:
  "student \<in> set (student_names inst) \<Longrightarrow>
   k \<in> set [(student, supervisor, area). supervisor \<leftarrow> supervisor_names inst, area \<leftarrow> areas inst] \<Longrightarrow>
   k \<in> set (x_keys inst)"
  by (auto simp: x_keys_def)

lemma supervisor_keys_in_x_keys:
  "supervisor \<in> set (supervisor_names inst) \<Longrightarrow>
   k \<in> set [(student, supervisor, area). student \<leftarrow> student_names inst, area \<leftarrow> areas inst] \<Longrightarrow>
   k \<in> set (x_keys inst)"
  by (auto simp: x_keys_def)

text \<open>
  Two of the three invariants of an assignment hold for every feasible answer, optimal
  or not: a student is selected in at most one (supervisor, area) pair, and the count the
  script prints for a supervisor is at most the supervisor's workload.
\<close>

theorem feasible_answer_respects_student_and_workload:
  assumes "prob inst = Some p" and "feasible p u"
  shows "(\<forall>student \<in> set (student_names inst).
            length (filter (selected (var_values_of u))
              [(student, supervisor, area). supervisor \<leftarrow> supervisor_names inst, area \<leftarrow> areas inst]) \<le> 1)
       \<and> (\<forall>supervisor \<in> set (supervisor_names inst). \<forall>w.
            workload inst supervisor = Some w \<longrightarrow> int (count inst (var_values_of u) supervisor) \<le> w)"
proof (intro conjI ballI allI impI)
  fix student
  assume s: "student \<in> set (student_names inst)"
  let ?ks = "[(student, supervisor, area). supervisor \<leftarrow> supervisor_names inst, area \<leftarrow> areas inst]"
  have "(of_nat (length (filter (selected (var_values_of u)) ?ks)) :: rat) = lp_sum u ?ks"
    by (rule count_selected_eq_lp_sum) (rule feasible_binary [OF assms], rule student_keys_in_x_keys [OF s])
  also have "\<dots> \<le> 1"
    by (rule feasible_student [OF assms s])
  finally have "(of_nat (length (filter (selected (var_values_of u)) ?ks)) :: rat) \<le> of_nat 1"
    by simp
  then show "length (filter (selected (var_values_of u)) ?ks) \<le> 1"
    by (simp only: of_nat_le_iff)
next
  fix supervisor w
  assume s: "supervisor \<in> set (supervisor_names inst)" and w: "workload inst supervisor = Some w"
  let ?ks = "[(student, supervisor, area). student \<leftarrow> student_names inst, area \<leftarrow> areas inst]"
  have "(of_nat (length (filter (selected (var_values_of u)) ?ks)) :: rat) = lp_sum u ?ks"
    by (rule count_selected_eq_lp_sum) (rule feasible_binary [OF assms], rule supervisor_keys_in_x_keys [OF s])
  also have "\<dots> \<le> of_int w"
    by (rule feasible_supervisor [OF assms s w])
  finally have "(of_int (int (count inst (var_values_of u) supervisor)) :: rat) \<le> of_int w"
    by (simp add: count_eq)
  then show "int (count inst (var_values_of u) supervisor) \<le> w"
    by (simp only: of_int_le_iff)
qed

lemma disjoint_from_areas:
  assumes "\<forall>row \<in> set (supervisors inst).
             set prefs \<inter> set [normalize_area (col row). col \<leftarrow> supervisor_area_cols, notnull (col row)] = {}"
    and "area \<in> set (areas inst)"
  shows "area \<notin> set prefs"
proof -
  from assms(2) obtain row col where row: "row \<in> set (supervisors inst)"
    and col: "col \<in> set supervisor_area_cols" "notnull (col row)" and a: "area = normalize_area (col row)"
    unfolding set_areas by blast
  from col a have "area \<in> set [normalize_area (col row). col \<leftarrow> supervisor_area_cols, notnull (col row)]"
    unfolding set_row_prefs by blast
  with assms(1) row show ?thesis
    by blast
qed

lemma no_shared_area_negative_weight:
  assumes "student_preferences inst student = Some prefs"
    and "\<forall>row \<in> set (supervisors inst).
           set prefs \<inter> set [normalize_area (col row). col \<leftarrow> supervisor_area_cols, notnull (col row)] = {}"
    and k: "(student, supervisor, area) \<in> set (x_keys inst)"
  shows "\<exists>w. satisfaction_at inst (student, supervisor, area) = Some w \<and> w < 0"
proof -
  from k have s: "student \<in> set (student_names inst)" and p: "supervisor \<in> set (supervisor_names inst)"
    and a: "area \<in> set (areas inst)"
    by (simp_all add: x_keys_iff)
  obtain pp where pp: "supervisor_preferences inst supervisor = Some pp"
    using p supervisor_preferences_defined by blast
  have "area \<notin> set prefs"
    using assms(2) a by (rule disjoint_from_areas)
  then have "area \<notin> set (take 3 prefs)"
    by (auto dest: in_set_takeD)
  then have "student_utility (rank_of area prefs) = - 10"
    by (rule student_utility_other)
  moreover have "supervisor_utility (rank_of area pp) \<le> 5"
    by (simp add: supervisor_utility_def)
  ultimately have "student_utility (rank_of area prefs) + supervisor_utility (rank_of area pp) < 0"
    by simp
  with satisfaction_at_value [OF s p a assms(1) pp] show ?thesis
    by simp
qed

text \<open>
  C8. A student of the sheet whose sequence has no area in common with the sequence of
  any row of the supervisors sheet is selected in no key by any optimum of the program,
  and is in the list of unmatched students the script prints.
\<close>

theorem student_without_shared_area_is_unmatched:
  assumes "solved inst u"
    and "student \<in> set (student_names inst)"
    and "student_preferences inst student = Some prefs"
    and "\<forall>row \<in> set (supervisors inst).
           set prefs \<inter> set [normalize_area (col row). col \<leftarrow> supervisor_area_cols, notnull (col row)] = {}"
  shows "student \<in> set (unmatched inst (var_values_of u))
       \<and> (\<forall>supervisor area. (student, supervisor, area) \<notin> set (assignments inst (var_values_of u)))"
proof -
  from assms(1) obtain p where p: "prob inst = Some p" and opt: "optimal p u"
    by (auto simp: solved_iff)
  have zero: "u (student, supervisor, area) = 0"
    if "(student, supervisor, area) \<in> set (x_keys inst)" for supervisor area
  proof -
    from no_shared_area_negative_weight [OF assms(3,4) that]
    obtain w where "satisfaction_at inst (student, supervisor, area) = Some w" "w < 0"
      by blast
    with p opt that show ?thesis
      by (rule optimal_drops_negative_keys)
  qed
  have none: "\<not> selected (var_values_of u) (student, supervisor, area)"
    if "(student, supervisor, area) \<in> set (x_keys inst)" for supervisor area
    using zero [OF that] by (simp add: selected_var_values_of)
  have "\<not> selected (var_values_of u) k"
    if "k \<in> set [(student, supervisor, area). supervisor \<leftarrow> supervisor_names inst, area \<leftarrow> areas inst]" for k
  proof -
    from that obtain supervisor area where k: "k = (student, supervisor, area)"
      by auto
    from student_keys_in_x_keys [OF assms(2) that] show ?thesis
      unfolding k by (rule none)
  qed
  then have "\<not> assigned inst (var_values_of u) student"
    unfolding assigned_def list_ex_iff by blast
  with assms(2) have un: "student \<in> set (unmatched inst (var_values_of u))"
    by (simp add: unmatched_def)
  have "(student, supervisor, area) \<notin> set (assignments inst (var_values_of u))" for supervisor area
    using none by (auto simp: assignments_def)
  with un show ?thesis
    by blast
qed

subsection \<open>Solved runs of the examples\<close>

lemma wb_scenario_keys: "x_keys wb_scenario = [(''S'', ''P'', Str ''b''), (''S'', ''P'', Str ''c'')]"
  by (simp add: x_keys_def wb_scenario_names wb_scenario_areas)

lemma wb_alone_keys: "x_keys wb_alone = [(''S'', ''P'', Str ''law'')]"
  by (simp add: x_keys_def wb_alone_names wb_alone_areas)

lemma wb_scenario_weight_c: "satisfaction_at wb_scenario (''S'', ''P'', Str ''c'') = Some (- 6)"
  by (simp add: satisfaction_at_value [OF _ _ _ wb_scenario_student wb_scenario_supervisor]
      wb_scenario_names wb_scenario_areas student_utility_def supervisor_utility_def)

lemma the_edge_weight: "satisfaction_at inst k = Some w \<Longrightarrow> the (edge_weight inst k) = w"
  by (simp add: satisfaction_at_eq split: if_splits)

lemma wb_alone_feasible:
  assumes "prob wb_alone = Some p"
  shows "feasible p u_none"
  by (rule feasibleI [OF assms])
    (simp_all add: wb_alone_names wb_alone_areas wb_alone_keys lp_sum_def u_none_def wb_alone_workload)

lemma wb_alone_solved: "solved wb_alone u_none"
proof -
  obtain p where p: "prob wb_alone = Some p"
    using prob_eq by blast
  have "objective_value p u' \<le> objective_value p u_none" if f: "feasible p u'" for u'
  proof -
    have "u' (''S'', ''P'', Str ''law'') = 0 \<or> u' (''S'', ''P'', Str ''law'') = 1"
      by (rule feasible_binary [OF p f]) (simp add: wb_alone_keys)
    then show ?thesis
      unfolding objective_value_eq [OF p] wb_alone_keys
      by (auto simp: the_edge_weight [OF wb_alone_weight] u_none_def)
  qed
  with wb_alone_feasible [OF p] p show ?thesis
    by (simp add: solved_iff optimal_def)
qed

lemma wb_tie_feasible:
  assumes "prob wb_tie = Some p"
  shows "feasible p u_tie"
  by (rule feasibleI [OF assms])
    (auto simp: wb_tie_names wb_tie_areas wb_tie_keys lp_sum_def u_tie_def wb_tie_workload wb_tie_weights)

lemma wb_tie_solved: "solved wb_tie u_tie"
proof -
  obtain p where p: "prob wb_tie = Some p"
    using prob_eq by blast
  have "objective_value p u' \<le> objective_value p u_tie" if f: "feasible p u'" for u'
  proof -
    have b1: "u' (''S'', ''P1'', Str ''law'') = 0 \<or> u' (''S'', ''P1'', Str ''law'') = 1"
      by (rule feasible_binary [OF p f]) (simp add: wb_tie_keys)
    have b3: "u' (''S'', ''P2'', Str ''law'') = 0 \<or> u' (''S'', ''P2'', Str ''law'') = 1"
      by (rule feasible_binary [OF p f]) (simp add: wb_tie_keys)
    have b4: "u' (''S'', ''P2'', Str ''tax'') = 0 \<or> u' (''S'', ''P2'', Str ''tax'') = 1"
      by (rule feasible_binary [OF p f]) (simp add: wb_tie_keys)
    have "lp_sum u' [(student, ''P2'', area). student \<leftarrow> student_names wb_tie, area \<leftarrow> areas wb_tie] \<le> of_int 0"
      by (rule feasible_supervisor [OF p f _ wb_tie_workload(2)]) (simp add: wb_tie_names)
    then have cap: "u' (''S'', ''P2'', Str ''law'') + u' (''S'', ''P2'', Str ''tax'') \<le> 0"
      by (simp add: wb_tie_names wb_tie_areas lp_sum_def)
    have lhs: "objective_value p u' =
        - 5 * u' (''S'', ''P1'', Str ''law'') - 20 * u' (''S'', ''P2'', Str ''law'')
        + 15 * u' (''S'', ''P2'', Str ''tax'')"
      unfolding objective_value_eq [OF p] wb_tie_keys
      by (simp add: the_edge_weight [OF wb_tie_weights(1)] the_edge_weight [OF wb_tie_weights(2)]
          the_edge_weight [OF wb_tie_weights(3)] the_edge_weight [OF wb_tie_weights(4)])
    have rhs: "objective_value p u_tie = 0"
      unfolding objective_value_eq [OF p] wb_tie_keys
      by (simp add: the_edge_weight [OF wb_tie_weights(2)] u_tie_def)
    from b1 b3 b4 cap show ?thesis
      unfolding lhs rhs by auto
  qed
  with wb_tie_feasible [OF p] p show ?thesis
    by (simp add: solved_iff optimal_def)
qed

text \<open>
  C1 on \<open>wb_tie\<close>. The student's first choice tax is offered by P2 only, who has
  capacity 0. The edge (S, P1, tax) weighs 10 - 10 = 0, is not pruned by the test for
  -20, and belongs to an optimum of the program: a solved run can select an edge whose
  area is not in the supervisor's sequence.
\<close>

theorem tie_optimum_selects_area_outside_supervisor_sequence:
  "solved wb_tie u_tie
   \<and> (''S'', ''P1'', Str ''tax'') \<in> set (assignments wb_tie (var_values_of u_tie))
   \<and> satisfaction_at wb_tie (''S'', ''P1'', Str ''tax'') = Some 0
   \<and> supervisor_preferences wb_tie ''P1'' = Some [Str ''law'']
   \<and> Str ''tax'' \<notin> set [Str ''law'']"
proof -
  have sel: "(''S'', ''P1'', Str ''tax'') \<in> set (assignments wb_tie (var_values_of u_tie))"
    by (simp add: assignments_def wb_tie_keys selected_var_values_of u_tie_def)
  have out: "Str ''tax'' \<notin> set [Str ''law'']"
    by simp
  from wb_tie_solved sel wb_tie_weights(2) wb_tie_supervisor(1) out show ?thesis
    by (intro conjI)
qed

theorem student_without_shared_area_is_unmatched_witness:
  "solved wb_alone u_none
   \<and> ''S'' \<in> set (student_names wb_alone)
   \<and> student_preferences wb_alone ''S'' = Some [Str ''art'']
   \<and> set [Str ''art''] \<inter> set (areas wb_alone) = {}
   \<and> ''S'' \<in> set (unmatched wb_alone (var_values_of u_none))
   \<and> (''S'', ''P'', Str ''law'') \<notin> set (assignments wb_alone (var_values_of u_none))"
proof -
  have s: "''S'' \<in> set (student_names wb_alone)"
    by (simp add: wb_alone_names)
  have d: "\<forall>row \<in> set (supervisors wb_alone).
      set [Str ''art''] \<inter> set [normalize_area (col row). col \<leftarrow> supervisor_area_cols, notnull (col row)] = {}"
    by (simp add: wb_alone_def eval_defs)
  have a: "set [Str ''art''] \<inter> set (areas wb_alone) = {}"
    by (simp add: wb_alone_areas)
  from student_without_shared_area_is_unmatched [OF wb_alone_solved s wb_alone_student d]
  have "''S'' \<in> set (unmatched wb_alone (var_values_of u_none))"
    and "(''S'', ''P'', Str ''law'') \<notin> set (assignments wb_alone (var_values_of u_none))"
    by blast+
  with wb_alone_solved s wb_alone_student a show ?thesis
    by (intro conjI)
qed

lemma wb_scenario_feasible:
  assumes "prob wb_scenario = Some p"
  shows "feasible p u_scenario"
  by (rule feasibleI [OF assms])
    (auto simp: wb_scenario_names wb_scenario_areas wb_scenario_keys lp_sum_def u_scenario_def
      wb_scenario_workload wb_scenario_weight wb_scenario_weight_c)

theorem feasible_answer_respects_student_and_workload_witness:
  "\<exists>p. prob wb_scenario = Some p \<and> feasible p u_scenario
     \<and> length (filter (selected (var_values_of u_scenario))
         [(''S'', supervisor, area). supervisor \<leftarrow> supervisor_names wb_scenario, area \<leftarrow> areas wb_scenario]) \<le> 1
     \<and> workload wb_scenario ''P'' = Some 1
     \<and> int (count wb_scenario (var_values_of u_scenario) ''P'') \<le> 1"
proof -
  obtain p where p: "prob wb_scenario = Some p"
    using prob_eq by blast
  have f: "feasible p u_scenario"
    by (rule wb_scenario_feasible [OF p])
  have s: "''S'' \<in> set (student_names wb_scenario)" and q: "''P'' \<in> set (supervisor_names wb_scenario)"
    by (simp_all add: wb_scenario_names)
  from feasible_answer_respects_student_and_workload [OF p f] s q wb_scenario_workload
  have "length (filter (selected (var_values_of u_scenario))
         [(''S'', supervisor, area). supervisor \<leftarrow> supervisor_names wb_scenario, area \<leftarrow> areas wb_scenario]) \<le> 1"
    and "int (count wb_scenario (var_values_of u_scenario) ''P'') \<le> 1"
    by blast+
  with p f wb_scenario_workload show ?thesis
    by blast
qed

subsection \<open>Section 14: the printed report\<close>

lemma total_satisfaction_eq:
  assumes "satisfaction inst = Some d"
  shows "total_satisfaction inst d varValue =
           Some (sum_list (map (\<lambda>k. the (edge_weight inst k)) (filter (selected varValue) (x_keys inst))))"
proof -
  have "lookup_all d (filter (selected varValue) (x_keys inst)) =
          Some (map (\<lambda>k. (k, the (edge_weight inst k))) (filter (selected varValue) (x_keys inst)))"
  proof (rule lookup_all_Some)
    fix k
    assume "k \<in> set (filter (selected varValue) (x_keys inst))"
    then have k: "k \<in> set (x_keys inst)"
      by simp
    then obtain w where "edge_weight inst k = Some w"
      using edge_weight_defined by blast
    moreover from assms have "d k = (if k \<in> set (x_keys inst) then edge_weight inst k else None)"
      using satisfaction_eq [of inst] by auto
    ultimately show "d k = Some (the (edge_weight inst k))"
      using k by simp
  qed
  then show ?thesis
    by (simp add: total_satisfaction_def comp_def)
qed

lemma workload_check_eq:
  "workload_check inst varValue =
     Some (map (\<lambda>supervisor. (supervisor, count inst varValue supervisor, the (workload inst supervisor)))
               (supervisor_names inst))"
  unfolding workload_check_def workload_lookup_all by (simp add: comp_def)

lemma test_solution_eq:
  "test_solution inst varValue =
     Some \<lparr>r_total = sum_list (map (\<lambda>k. the (edge_weight inst k)) (filter (selected varValue) (x_keys inst))),
           r_workload = map (\<lambda>supervisor. (supervisor, count inst varValue supervisor, the (workload inst supervisor)))
                            (supervisor_names inst),
           r_unmatched = unmatched inst varValue\<rparr>"
proof -
  obtain d where d: "satisfaction inst = Some d"
    using satisfaction_eq by blast
  show ?thesis
    unfolding test_solution_def d by (simp add: total_satisfaction_eq [OF d] workload_check_eq)
qed

lemma selected_total_eq_weighted_sum:
  "(\<And>k. k \<in> set ks \<Longrightarrow> u k = 0 \<or> u k = 1) \<Longrightarrow>
   (of_int (sum_list (map f (filter (selected (var_values_of u)) ks))) :: rat) =
     sum_list (map (\<lambda>k. of_int (f k) * u k) ks)"
proof (induction ks)
  case Nil
  then show ?case by simp
next
  case (Cons k ks)
  have bin: "u k = 0 \<or> u k = 1"
    by (rule Cons.prems) simp
  then have sel: "selected (var_values_of u) k \<longleftrightarrow> u k = 1"
    by (auto simp: selected_var_values_of)
  have "(of_int (sum_list (map f (filter (selected (var_values_of u)) ks))) :: rat) =
          sum_list (map (\<lambda>k. of_int (f k) * u k) ks)"
    by (rule Cons.IH) (simp add: Cons.prems)
  with bin sel show ?case
    by auto
qed

text \<open>
  C6, as the script has it. Section 14 never fails, whatever the solver left in the
  variables: it prints the recomputed total, each supervisor's count beside the
  workload, and the unmatched students. When every variable holds 0 or 1 the printed
  total is the objective at these values.
\<close>

theorem test_solution_prints_and_total_is_objective:
  "(\<exists>r. test_solution inst varValue = Some r)
   \<and> ((\<forall>k \<in> set (x_keys inst). u k = 0 \<or> u k = 1) \<longrightarrow>
        map_option (\<lambda>r. of_int (r_total r)) (test_solution inst (var_values_of u)) = reported_objective inst u)"
proof -
  have never: "\<exists>r. test_solution inst varValue = Some r"
    using test_solution_eq by blast
  have total: "map_option (\<lambda>r. of_int (r_total r)) (test_solution inst (var_values_of u)) = reported_objective inst u"
    if bin: "\<forall>k \<in> set (x_keys inst). u k = 0 \<or> u k = 1"
  proof -
    obtain p where p: "prob inst = Some p"
      using prob_eq by blast
    have "(of_int (sum_list (map (\<lambda>k. the (edge_weight inst k))
              (filter (selected (var_values_of u)) (x_keys inst)))) :: rat) = objective_value p u"
      unfolding objective_value_eq [OF p]
      by (rule selected_total_eq_weighted_sum) (simp add: bin)
    then show ?thesis
      by (simp add: test_solution_eq reported_objective_def p)
  qed
  from never total show ?thesis
    by blast
qed

lemma wb_scenario_report:
  "test_solution wb_scenario (var_values_of u_scenario) =
     Some \<lparr>r_total = 12, r_workload = [(''P'', 1, 1)], r_unmatched = []\<rparr>"
  unfolding test_solution_eq
  by (simp add: wb_scenario_keys wb_scenario_names wb_scenario_areas wb_scenario_workload
      selected_var_values_of u_scenario_def count_def unmatched_def assigned_def
      the_edge_weight [OF wb_scenario_weight])

theorem test_solution_prints_and_total_is_objective_witness:
  "test_solution wb_scenario (var_values_of u_scenario) =
     Some \<lparr>r_total = 12, r_workload = [(''P'', 1, 1)], r_unmatched = []\<rparr>
   \<and> reported_objective wb_scenario u_scenario = Some 12"
proof -
  have bin: "\<forall>k \<in> set (x_keys wb_scenario). u_scenario k = 0 \<or> u_scenario k = 1"
    by (simp add: u_scenario_def)
  from test_solution_prints_and_total_is_objective [of wb_scenario "var_values_of u_scenario" u_scenario] bin
  have "map_option (\<lambda>r. of_int (r_total r)) (test_solution wb_scenario (var_values_of u_scenario))
          = reported_objective wb_scenario u_scenario"
    by blast
  then have "reported_objective wb_scenario u_scenario = Some 12"
    by (simp add: wb_scenario_report)
  with wb_scenario_report show ?thesis
    by (intro conjI)
qed

text \<open>
  Counterexample to C6 as stated: on \<open>wb_tie\<close> with the answer \<open>u_broken\<close> the
  recomputed total is 15 while the objective at the answer is 45/4, and supervisor P2 is
  counted with 1 student against a workload of 0; section 14 prints both and ends
  normally.
\<close>

theorem broken_answer_is_printed_not_fatal:
  "test_solution wb_tie (var_values_of u_broken) =
     Some \<lparr>r_total = 15, r_workload = [(''P1'', 0, 1), (''P2'', 1, 0)], r_unmatched = []\<rparr>
   \<and> reported_objective wb_tie u_broken = Some (45 / 4)
   \<and> (15 :: rat) \<noteq> 45 / 4
   \<and> \<not> (1 :: int) \<le> 0"
proof -
  have rep: "test_solution wb_tie (var_values_of u_broken) =
     Some \<lparr>r_total = 15, r_workload = [(''P1'', 0, 1), (''P2'', 1, 0)], r_unmatched = []\<rparr>"
    unfolding test_solution_eq
    by (simp add: wb_tie_keys wb_tie_names wb_tie_areas wb_tie_workload
        selected_var_values_of u_broken_def count_def unmatched_def assigned_def
        the_edge_weight [OF wb_tie_weights(4)])
  obtain p where p: "prob wb_tie = Some p"
    using prob_eq by blast
  have obj: "reported_objective wb_tie u_broken = Some (45 / 4)"
    unfolding reported_objective_def p option.case objective_value_eq [OF p] wb_tie_keys
    by (simp add: the_edge_weight [OF wb_tie_weights(4)] u_broken_def)
  from rep obj show ?thesis
    by simp
qed

subsection \<open>Which edges an optimum can select\<close>

lemma assignments_iff:
  "k \<in> set (assignments inst varValue) \<longleftrightarrow> k \<in> set (x_keys inst) \<and> selected varValue k"
  by (simp add: assignments_def)

lemma student_utility_ten: "10 \<le> student_utility r \<Longrightarrow> r = Some 0"
  by (simp add: student_utility_def split: if_splits)

text \<open>
  The third invariant, as far as it holds. An edge selected by an optimum has a
  satisfaction of at least 0: either its area is among the first three areas of the
  student and in the supervisor's sequence, or it is the student's first area and the
  supervisor does not list it (satisfaction 0, the case the pruning test misses).
\<close>

theorem selected_edge_of_an_optimum:
  assumes "solved inst u"
    and "(student, supervisor, area) \<in> set (assignments inst (var_values_of u))"
    and "student_preferences inst student = Some sp"
    and "supervisor_preferences inst supervisor = Some pp"
  shows "(\<exists>w. satisfaction_at inst (student, supervisor, area) = Some w \<and> 0 \<le> w)
       \<and> ((area \<in> set (take 3 sp) \<and> area \<in> set pp) \<or> (rank_of area sp = Some 0 \<and> area \<notin> set pp))"
proof -
  let ?k = "(student, supervisor, area)"
  let ?su = "student_utility (rank_of area sp)"
  let ?pu = "supervisor_utility (rank_of area pp)"
  from assms(1) obtain p where p: "prob inst = Some p" and opt: "optimal p u"
    by (auto simp: solved_iff)
  from assms(2) have k: "?k \<in> set (x_keys inst)" and sel: "1 / 2 < u ?k"
    by (simp_all add: assignments_iff selected_var_values_of)
  from k have w: "satisfaction_at inst ?k = Some (?su + ?pu)"
    by (simp add: satisfaction_at_value [OF _ _ _ assms(3,4)] x_keys_iff)
  have nonneg: "0 \<le> ?su + ?pu"
  proof (rule ccontr)
    assume "\<not> 0 \<le> ?su + ?pu"
    then have "?su + ?pu < 0"
      by simp
    with p opt k w have "u ?k = 0"
      by (rule optimal_drops_negative_keys)
    with sel show False
      by simp
  qed
  have shape: "(area \<in> set (take 3 sp) \<and> area \<in> set pp) \<or> (rank_of area sp = Some 0 \<and> area \<notin> set pp)"
  proof (cases "area \<in> set pp")
    case True
    have "?pu \<le> 5"
      by (simp add: supervisor_utility_def)
    with nonneg have "?su \<noteq> - 10"
      by auto
    then have "area \<in> set (take 3 sp)"
      using student_utility_other [of area sp] by blast
    with True show ?thesis
      by simp
  next
    case False
    then have "?pu = - 10"
      by (rule supervisor_utility_other)
    with nonneg have "10 \<le> ?su"
      by simp
    then have "rank_of area sp = Some 0"
      by (rule student_utility_ten)
    with False show ?thesis
      by simp
  qed
  from w nonneg shape show ?thesis
    by blast
qed

theorem selected_edge_of_an_optimum_witness:
  "solved wb_tie u_tie
   \<and> (''S'', ''P1'', Str ''tax'') \<in> set (assignments wb_tie (var_values_of u_tie))
   \<and> student_preferences wb_tie ''S'' = Some [Str ''tax'']
   \<and> supervisor_preferences wb_tie ''P1'' = Some [Str ''law'']
   \<and> rank_of (Str ''tax'') [Str ''tax''] = Some 0
   \<and> Str ''tax'' \<notin> set [Str ''law'']"
proof -
  have sel: "(''S'', ''P1'', Str ''tax'') \<in> set (assignments wb_tie (var_values_of u_tie))"
    by (simp add: assignments_def wb_tie_keys selected_var_values_of u_tie_def)
  from selected_edge_of_an_optimum [OF wb_tie_solved sel wb_tie_student wb_tie_supervisor(1)]
  have "rank_of (Str ''tax'') [Str ''tax''] = Some 0 \<and> Str ''tax'' \<notin> set [Str ''law'']"
    by auto
  with wb_tie_solved sel wb_tie_student wb_tie_supervisor(1) show ?thesis
    by (intro conjI) blast+
qed

text \<open>
  A supervisor whose workload is 0 is in no selected edge of a feasible answer, whatever
  the preferences are.
\<close>

theorem supervisor_with_workload_zero_is_never_selected:
  assumes "prob inst = Some p" and "feasible p u"
    and "supervisor \<in> set (supervisor_names inst)" and "workload inst supervisor = Some 0"
  shows "count inst (var_values_of u) supervisor = 0
       \<and> (\<forall>student area. (student, supervisor, area) \<notin> set (assignments inst (var_values_of u)))"
proof -
  let ?ks = "[(student, supervisor, area). student \<leftarrow> student_names inst, area \<leftarrow> areas inst]"
  have "(of_nat (length (filter (selected (var_values_of u)) ?ks)) :: rat) = lp_sum u ?ks"
    by (rule count_selected_eq_lp_sum)
      (rule feasible_binary [OF assms(1,2)], rule supervisor_keys_in_x_keys [OF assms(3)])
  also have "\<dots> \<le> of_int 0"
    by (rule feasible_supervisor [OF assms])
  finally have empty: "filter (selected (var_values_of u)) ?ks = []"
    by simp
  then have c: "count inst (var_values_of u) supervisor = 0"
    by (simp add: count_eq)
  have "(student, supervisor, area) \<notin> set (assignments inst (var_values_of u))" for student area
  proof
    assume "(student, supervisor, area) \<in> set (assignments inst (var_values_of u))"
    then have "(student, supervisor, area) \<in> set (x_keys inst)"
      and "selected (var_values_of u) (student, supervisor, area)"
      by (simp_all add: assignments_iff)
    then have "(student, supervisor, area) \<in> set (filter (selected (var_values_of u)) ?ks)"
      by (auto simp: x_keys_iff)
    with empty show False
      by simp
  qed
  with c show ?thesis
    by blast
qed

theorem supervisor_with_workload_zero_is_never_selected_witness:
  "\<exists>p. prob wb_tie = Some p \<and> feasible p u_tie
     \<and> ''P2'' \<in> set (supervisor_names wb_tie) \<and> workload wb_tie ''P2'' = Some 0
     \<and> count wb_tie (var_values_of u_tie) ''P2'' = 0
     \<and> (''S'', ''P2'', Str ''tax'') \<notin> set (assignments wb_tie (var_values_of u_tie))"
proof -
  obtain p where p: "prob wb_tie = Some p"
    using prob_eq by blast
  have f: "feasible p u_tie"
    by (rule wb_tie_feasible [OF p])
  have s: "''P2'' \<in> set (supervisor_names wb_tie)"
    by (simp add: wb_tie_names)
  from supervisor_with_workload_zero_is_never_selected [OF p f s wb_tie_workload(2)]
  have "count wb_tie (var_values_of u_tie) ''P2'' = 0"
    and "(''S'', ''P2'', Str ''tax'') \<notin> set (assignments wb_tie (var_values_of u_tie))"
    by blast+
  with p f s wb_tie_workload(2) show ?thesis
    by blast
qed

subsection \<open>The first scenario of the specification\<close>

lemma wb_scenario_objective:
  assumes "prob wb_scenario = Some p"
  shows "objective_value p v = 12 * v (''S'', ''P'', Str ''b'') - 6 * v (''S'', ''P'', Str ''c'')"
  unfolding objective_value_eq [OF assms] wb_scenario_keys
  by (simp add: the_edge_weight [OF wb_scenario_weight] the_edge_weight [OF wb_scenario_weight_c])

lemma wb_scenario_solved: "solved wb_scenario u_scenario"
proof -
  obtain p where p: "prob wb_scenario = Some p"
    using prob_eq by blast
  have "objective_value p u' \<le> objective_value p u_scenario" if f: "feasible p u'" for u'
  proof -
    have "u' (''S'', ''P'', Str ''b'') = 0 \<or> u' (''S'', ''P'', Str ''b'') = 1"
      by (rule feasible_binary [OF p f]) (simp add: wb_scenario_keys)
    moreover have "u' (''S'', ''P'', Str ''c'') = 0 \<or> u' (''S'', ''P'', Str ''c'') = 1"
      by (rule feasible_binary [OF p f]) (simp add: wb_scenario_keys)
    ultimately show ?thesis
      unfolding wb_scenario_objective [OF p] by (auto simp: u_scenario_def)
  qed
  with wb_scenario_feasible [OF p] p show ?thesis
    by (simp add: solved_iff optimal_def)
qed

text \<open>
  One student with the areas a, b and one supervisor with the areas b, c and capacity 1:
  every optimum selects exactly the edge (S, P, b), with the objective 7 + 5 = 12.
\<close>

theorem scenario_one_selects_the_shared_area:
  assumes "solved wb_scenario u"
  shows "assignments wb_scenario (var_values_of u) = [(''S'', ''P'', Str ''b'')]
       \<and> reported_objective wb_scenario u = Some 12"
proof -
  from assms obtain p where p: "prob wb_scenario = Some p" and opt: "optimal p u"
    by (auto simp: solved_iff)
  from opt have f: "feasible p u"
    by (simp add: optimal_def)
  have c: "u (''S'', ''P'', Str ''c'') = 0"
    by (rule optimal_drops_negative_keys [OF p opt _ wb_scenario_weight_c]) (simp_all add: wb_scenario_keys)
  have bin: "u (''S'', ''P'', Str ''b'') = 0 \<or> u (''S'', ''P'', Str ''b'') = 1"
    by (rule feasible_binary [OF p f]) (simp add: wb_scenario_keys)
  from opt wb_scenario_feasible [OF p] have "objective_value p u_scenario \<le> objective_value p u"
    by (simp add: optimal_def)
  then have "12 \<le> 12 * u (''S'', ''P'', Str ''b'')"
    unfolding wb_scenario_objective [OF p] by (simp add: u_scenario_def c)
  with bin have b: "u (''S'', ''P'', Str ''b'') = 1"
    by auto
  have sel: "assignments wb_scenario (var_values_of u) = [(''S'', ''P'', Str ''b'')]"
    by (simp add: assignments_def wb_scenario_keys selected_var_values_of b c)
  have obj: "reported_objective wb_scenario u = Some 12"
    by (simp add: reported_objective_def p wb_scenario_objective [OF p] b c)
  from sel obj show ?thesis
    by (intro conjI)
qed

theorem scenario_one_selects_the_shared_area_witness:
  "solved wb_scenario u_scenario
   \<and> assignments wb_scenario (var_values_of u_scenario) = [(''S'', ''P'', Str ''b'')]
   \<and> reported_objective wb_scenario u_scenario = Some 12"
  using scenario_one_selects_the_shared_area [OF wb_scenario_solved] wb_scenario_solved
  by (intro conjI) blast+

end
